theory Spec2Isabelle
  imports Complex_Main
begin

section \<open>Python floats\<close>

text \<open>
  The closing prices, the RSI values and the two thresholds of \<^verbatim>\<open>bot.py\<close> are Python
  floats (IEEE 754 doubles). A float is modelled as a finite number, one of the two
  infinities, or NaN. A finite double is modelled by the real number it denotes, and an
  operation on finite values by its exact result, which becomes an infinity when it lies
  beyond the largest double: the rounding of the mantissa is not modelled, and neither is
  the sign of zero (Python compares \<^verbatim>\<open>-0.0 == 0\<close> as true, and the code only compares).
  The special values follow IEEE 754, as Python's float operators do: NaN propagates,
  \<^verbatim>\<open>inf - inf\<close>, \<^verbatim>\<open>0 * inf\<close> and \<^verbatim>\<open>inf / inf\<close> are NaN, and every comparison
  with NaN is false. The integer literals \<^verbatim>\<open>0\<close>, \<^verbatim>\<open>1\<close>, \<^verbatim>\<open>100\<close> of the source, which
  Python converts to float in mixed arithmetic, are written \<open>Fin 0\<close>, \<open>Fin 1\<close>, \<open>Fin 100\<close>.
\<close>

datatype pyfloat = Fin real | PInf | NInf | NaN

definition max_double :: real where
  "max_double = (2 ^ 53 - 1) * 2 ^ 971"

definition overflow :: "real \<Rightarrow> pyfloat" where
  "overflow r = (if max_double < r then PInf else if r < - max_double then NInf else Fin r)"

fun fneg :: "pyfloat \<Rightarrow> pyfloat" where
  "fneg (Fin a) = Fin (- a)"
| "fneg PInf = NInf"
| "fneg NInf = PInf"
| "fneg NaN = NaN"

fun fadd :: "pyfloat \<Rightarrow> pyfloat \<Rightarrow> pyfloat" where
  "fadd (Fin a) (Fin b) = overflow (a + b)"
| "fadd NaN y = NaN"
| "fadd x NaN = NaN"
| "fadd PInf NInf = NaN"
| "fadd NInf PInf = NaN"
| "fadd PInf y = PInf"
| "fadd NInf y = NInf"
| "fadd (Fin a) y = y"

definition fsub :: "pyfloat \<Rightarrow> pyfloat \<Rightarrow> pyfloat" where
  "fsub x y = fadd x (fneg y)"

text \<open>The sign of a float that is not NaN: \<open>-1\<close>, \<open>0\<close> or \<open>1\<close>.\<close>

fun fsgn :: "pyfloat \<Rightarrow> real" where
  "fsgn (Fin a) = sgn a"
| "fsgn PInf = 1"
| "fsgn NInf = - 1"
| "fsgn NaN = 0"

definition signed_inf :: "real \<Rightarrow> pyfloat" where
  "signed_inf s = (if s = 0 then NaN else if 0 < s then PInf else NInf)"

fun fmul :: "pyfloat \<Rightarrow> pyfloat \<Rightarrow> pyfloat" where
  "fmul (Fin a) (Fin b) = overflow (a * b)"
| "fmul NaN y = NaN"
| "fmul x NaN = NaN"
| "fmul x y = signed_inf (fsgn x * fsgn y)"

text \<open>
  Python's \<^verbatim>\<open>x / y\<close> on floats raises \<^verbatim>\<open>ZeroDivisionError\<close> when \<^verbatim>\<open>y == 0\<close>. The
  function \<open>fdiv\<close> gives the quotient for a divisor that is not zero; every division of
  the source is modelled with the test for a zero divisor in front of it, so the value
  of \<open>fdiv\<close> at a zero divisor (written as NaN) is never used.
\<close>

fun fdiv :: "pyfloat \<Rightarrow> pyfloat \<Rightarrow> pyfloat" where
  "fdiv (Fin a) (Fin b) = (if b = 0 then NaN else overflow (a / b))"
| "fdiv NaN y = NaN"
| "fdiv x NaN = NaN"
| "fdiv (Fin a) y = Fin 0"
| "fdiv x (Fin b) = signed_inf (fsgn x * sgn b)"
| "fdiv x y = NaN"

text \<open>The comparisons \<^verbatim>\<open>x < y\<close>, \<^verbatim>\<open>x <= y\<close> and \<^verbatim>\<open>x == y\<close>; \<^verbatim>\<open>x > y\<close> is \<open>flt y x\<close>.\<close>

fun flt :: "pyfloat \<Rightarrow> pyfloat \<Rightarrow> bool" where
  "flt (Fin a) (Fin b) = (a < b)"
| "flt NaN y = False"
| "flt x NaN = False"
| "flt PInf y = False"
| "flt x NInf = False"
| "flt x PInf = True"
| "flt NInf y = True"

fun feq :: "pyfloat \<Rightarrow> pyfloat \<Rightarrow> bool" where
  "feq NaN y = False"
| "feq x NaN = False"
| "feq x y = (x = y)"

definition fle :: "pyfloat \<Rightarrow> pyfloat \<Rightarrow> bool" where
  "fle x y = (flt x y \<or> feq x y)"

definition fgt :: "pyfloat \<Rightarrow> pyfloat \<Rightarrow> bool" where
  "fgt x y = flt y x"

definition fge :: "pyfloat \<Rightarrow> pyfloat \<Rightarrow> bool" where
  "fge x y = fle y x"

text \<open>
  Python's \<^verbatim>\<open>max(x, 0)\<close> keeps its first argument unless the second is greater:
  it returns \<^verbatim>\<open>0\<close> when \<^verbatim>\<open>0 > x\<close> and \<^verbatim>\<open>x\<close> otherwise, so \<^verbatim>\<open>max(nan, 0)\<close>
  is NaN.
\<close>

definition max0 :: "pyfloat \<Rightarrow> pyfloat" where
  "max0 x = (if fgt (Fin 0) x then Fin 0 else x)"

section \<open>The RSI computation\<close>

text \<open>
  The exceptions of the model. \<open>ZeroDivisionError\<close> and \<open>TypeError\<close> are raised by the
  arithmetic and the comparisons of the code itself; \<open>External\<close> stands for an exception
  raised inside a call to the outside (the HTTP requests, the decoding of a candle, the
  formatting of a time stamp), named by the string it carries.
\<close>

datatype error = ZeroDivisionError | TypeError | External string

text \<open>
  \<^verbatim>\<open>period\<close> is an integer of Python converted to float where it meets a float. In
  \<^verbatim>\<open>compute_rsi\<close> the conversions come after the length test, so the converted value is
  below the length of a list and the conversion cannot overflow.
\<close>

definition int_to_float :: "nat \<Rightarrow> pyfloat" where
  "int_to_float n = Fin (real n)"

text \<open>\<^verbatim>\<open>sum(xs)\<close> adds from the left, starting from \<^verbatim>\<open>0\<close>.\<close>

definition py_sum :: "pyfloat list \<Rightarrow> pyfloat" where
  "py_sum xs = foldl fadd (Fin 0) xs"

text \<open>
  The body of the loop of \<^verbatim>\<open>compute_rsi\<close>, for one of the two averages:
  \<^verbatim>\<open>avg = (avg * (period - 1) + x) / period\<close>. It is only run with \<open>0 < period\<close>.
\<close>

definition smooth :: "nat \<Rightarrow> pyfloat \<Rightarrow> pyfloat \<Rightarrow> pyfloat" where
  "smooth period avg x =
     fdiv (fadd (fmul avg (int_to_float (period - 1))) x) (int_to_float period)"

text \<open>
  \<^verbatim>\<open>compute_rsi(closes, period)\<close>, lines 57 to 76. The result is \<open>Inr None\<close> for Python's
  \<^verbatim>\<open>None\<close>, \<open>Inr (Some v)\<close> for a float and \<open>Inl e\<close> for an exception. \<^verbatim>\<open>period\<close> is a
  natural number: the configuration makes it a positive integer, and with \<open>period = 0\<close>
  the first division, \<^verbatim>\<open>sum(gains[:0]) / 0\<close>, raises. The indices \<open>i\<close> and \<open>i - 1\<close> of the
  list comprehension and the index \<open>i\<close> of the loop are within range.
\<close>

definition compute_rsi :: "pyfloat list \<Rightarrow> nat \<Rightarrow> error + pyfloat option" where
  "compute_rsi closes period =
     (if length closes < period + 1 then Inr None
      else
        let deltas = map (\<lambda>i. fsub (closes ! i) (closes ! (i - 1))) [1..<length closes];
            gains = map (\<lambda>d. max0 d) deltas;
            losses = map (\<lambda>d. max0 (fneg d)) deltas
        in
          if period = 0 then Inl ZeroDivisionError
          else
            let avg_gain = fdiv (py_sum (take period gains)) (int_to_float period);
                avg_loss = fdiv (py_sum (take period losses)) (int_to_float period);
                (avg_gain, avg_loss) =
                  foldl (\<lambda>(avg_gain, avg_loss) i.
                           (smooth period avg_gain (gains ! i),
                            smooth period avg_loss (losses ! i)))
                    (avg_gain, avg_loss) [period..<length deltas]
            in
              if feq avg_loss (Fin 0) then Inr (Some (Fin 100))
              else
                let rs = fdiv avg_gain avg_loss
                in
                  if feq (fadd (Fin 1) rs) (Fin 0) then Inl ZeroDivisionError
                  else Inr (Some (fsub (Fin 100) (fdiv (Fin 100) (fadd (Fin 1) rs)))))"

subsection \<open>The reference definition of Wilder's RSI\<close>

text \<open>
  The definition of the specification, written after its words rather than after the
  code: the deltas are the consecutive differences, a gain is \<open>max(delta, 0)\<close> and a loss
  \<open>max(-delta, 0)\<close>, each average is seeded with the simple average of the first \<open>period\<close>
  values and then updated with every remaining value by
  \<open>avg = (avg * (period - 1) + x) / period\<close>; the result is \<open>100\<close> when the average loss
  is zero and \<open>100 - 100 / (1 + avgGain / avgLoss)\<close> otherwise. It uses the same float
  operations as the code, and adds up the values of a mean from the first to the last.
\<close>

fun consecutive_differences :: "pyfloat list \<Rightarrow> pyfloat list" where
  "consecutive_differences (x # y # zs) = fsub y x # consecutive_differences (y # zs)"
| "consecutive_differences zs = []"

fun total_from :: "pyfloat \<Rightarrow> pyfloat list \<Rightarrow> pyfloat" where
  "total_from acc [] = acc"
| "total_from acc (x # xs) = total_from (fadd acc x) xs"

definition simple_average :: "pyfloat list \<Rightarrow> pyfloat" where
  "simple_average xs = fdiv (total_from (Fin 0) xs) (Fin (real (length xs)))"

fun wilder_update :: "nat \<Rightarrow> pyfloat \<Rightarrow> pyfloat list \<Rightarrow> pyfloat" where
  "wilder_update period avg [] = avg"
| "wilder_update period avg (x # xs) =
     wilder_update period
       (fdiv (fadd (fmul avg (Fin (real period - 1))) x) (Fin (real period))) xs"

definition wilder_average :: "nat \<Rightarrow> pyfloat list \<Rightarrow> pyfloat" where
  "wilder_average period xs =
     wilder_update period (simple_average (take period xs)) (drop period xs)"

definition wilder_rsi :: "pyfloat list \<Rightarrow> nat \<Rightarrow> pyfloat" where
  "wilder_rsi closes period =
     (let deltas = consecutive_differences closes;
          avgGain = wilder_average period (map max0 deltas);
          avgLoss = wilder_average period (map (\<lambda>d. max0 (fneg d)) deltas)
      in if feq avgLoss (Fin 0) then Fin 100
         else fsub (Fin 100) (fdiv (Fin 100) (fadd (Fin 1) (fdiv avgGain avgLoss))))"

section \<open>The dedup state\<close>

text \<open>
  \<^verbatim>\<open>state\<close> is the dictionary read from \<^verbatim>\<open>state.json\<close>: it maps a symbol to a dictionary
  with the optional keys \<^verbatim>\<open>"last_oversold"\<close> and \<^verbatim>\<open>"last_overbought"\<close>, whose values are
  close times in epoch milliseconds. Both are partial maps. Python mutates the
  dictionaries in place; the model returns the new state. No two symbols share their
  inner dictionary (each is built by \<^verbatim>\<open>json.load\<close> or by \<^verbatim>\<open>setdefault\<close>), so an update
  of \<^verbatim>\<open>symbol_state\<close> is an update of \<^verbatim>\<open>state[symbol]\<close> alone.
\<close>

type_synonym symbol_state = "string \<rightharpoonup> int"
type_synonym state = "string \<rightharpoonup> symbol_state"

text \<open>\<^verbatim>\<open>state.setdefault(symbol, {})\<close>: the state afterwards.\<close>

definition setdefault :: "state \<Rightarrow> string \<Rightarrow> state" where
  "setdefault state symbol =
     (case state symbol of None \<Rightarrow> state(symbol \<mapsto> Map.empty) | Some symbol_state \<Rightarrow> state)"

text \<open>\<^verbatim>\<open>state[symbol].get(key)\<close>, for a symbol that has an entry.\<close>

definition get_field :: "state \<Rightarrow> string \<Rightarrow> string \<Rightarrow> int option" where
  "get_field state symbol key =
     (case state symbol of None \<Rightarrow> None | Some symbol_state \<Rightarrow> symbol_state key)"

text \<open>\<^verbatim>\<open>state[symbol][key] = v\<close>, for a symbol that has an entry.\<close>

definition set_field :: "state \<Rightarrow> string \<Rightarrow> string \<Rightarrow> int \<Rightarrow> state" where
  "set_field state symbol key v =
     (case state symbol of None \<Rightarrow> state
      | Some symbol_state \<Rightarrow> state(symbol \<mapsto> symbol_state(key \<mapsto> v)))"

section \<open>The outside world\<close>

text \<open>
  A candle of the data source, as far as the code reads it: what \<^verbatim>\<open>float(k[4])\<close> and
  \<^verbatim>\<open>int(k[6])\<close> evaluate to, each a value or an exception.
\<close>

record kline =
  k_close :: "error + pyfloat"
  k_close_time :: "error + int"

datatype direction = OVERSOLD | OVERBOUGHT

text \<open>
  The message of an alert is a formatted string; the model keeps the values that are
  formatted into it.
\<close>

record alert =
  alert_symbol :: string
  alert_interval :: string
  alert_rsi :: pyfloat
  alert_direction :: direction
  alert_price :: pyfloat
  alert_time :: string

text \<open>
  The answers of the outside during one cycle: the candles of a symbol (or the exception
  of \<^verbatim>\<open>fetch_klines\<close>), the clock read by \<^verbatim>\<open>extract_closed_closes\<close>, the formatted close
  time (\<^verbatim>\<open>datetime.fromtimestamp(...).strftime(...)\<close> raises on a time stamp out of its
  range), whether \<^verbatim>\<open>send_alert\<close> raises for a message (a request of \<^verbatim>\<open>send_telegram\<close> or
  \<^verbatim>\<open>send_whatsapp\<close> that times out raises), and whether \<^verbatim>\<open>save_state\<close> raises.
\<close>

record world =
  fetch_klines :: "string \<Rightarrow> string \<Rightarrow> error + kline list"
  now_ms :: int
  format_time :: "int \<Rightarrow> error + string"
  send_alert :: "alert \<Rightarrow> error option"
  save_state :: "state \<Rightarrow> error option"

text \<open>\<^verbatim>\<open>extract_closed_closes(klines)\<close>, lines 91 to 102, with the clock as an argument.\<close>

fun extract_closed_closes :: "int \<Rightarrow> kline list \<Rightarrow> error + (pyfloat list \<times> int list)" where
  "extract_closed_closes now [] = Inr ([], [])"
| "extract_closed_closes now (k # klines) =
     (case k_close_time k of
        Inl e \<Rightarrow> Inl e
      | Inr close_time \<Rightarrow>
          if close_time \<le> now then
            (case k_close k of
               Inl e \<Rightarrow> Inl e
             | Inr c \<Rightarrow>
                 (case extract_closed_closes now klines of
                    Inl e \<Rightarrow> Inl e
                  | Inr (closes, close_times) \<Rightarrow> Inr (c # closes, close_time # close_times)))
          else extract_closed_closes now klines)"

section \<open>The crossing detector\<close>

text \<open>
  What a call of \<^verbatim>\<open>check_symbol\<close> leaves behind: the exception it raised, if any, the
  state (the dictionary is mutated in place, so the changes made before an exception
  stay), and the messages handed to \<^verbatim>\<open>send_alert\<close>, in order.
\<close>

record outcome =
  raised :: "error option"
  new_state :: state
  alerts :: "alert list"

text \<open>
  One of the two blocks of lines 173 to 193. They differ in the crossing condition
  \<open>crossed\<close>, in the key of the dedup field and in the message. The field is compared
  with \<^verbatim>\<open>!=\<close>, so an absent field (\<^verbatim>\<open>None\<close>) differs from every close time. The field is
  written after \<^verbatim>\<open>send_alert\<close> has returned.
\<close>

definition alert_block ::
  "world \<Rightarrow> bool \<Rightarrow> string \<Rightarrow> alert \<Rightarrow> string \<Rightarrow> int \<Rightarrow> state \<Rightarrow> outcome" where
  "alert_block w crossed key msg symbol last_close_time state =
     (if crossed then
        if get_field state symbol key \<noteq> Some last_close_time then
          (case send_alert w msg of
             Some e \<Rightarrow> \<lparr>raised = Some e, new_state = state, alerts = [msg]\<rparr>
           | None \<Rightarrow>
               \<lparr>raised = None,
                new_state = set_field state symbol key last_close_time,
                alerts = [msg]\<rparr>)
        else \<lparr>raised = None, new_state = state, alerts = []\<rparr>
      else \<lparr>raised = None, new_state = state, alerts = []\<rparr>)"

definition message ::
  "string \<Rightarrow> string \<Rightarrow> pyfloat \<Rightarrow> direction \<Rightarrow> pyfloat \<Rightarrow> string \<Rightarrow> alert" where
  "message symbol interval current_rsi dir last_price readable_time =
     \<lparr>alert_symbol = symbol, alert_interval = interval, alert_rsi = current_rsi,
      alert_direction = dir, alert_price = last_price, alert_time = readable_time\<rparr>"

text \<open>
  Lines 171 to 193 of \<^verbatim>\<open>check_symbol\<close>: \<^verbatim>\<open>setdefault\<close>, the oversold block, the overbought
  block. An exception of the first block leaves the second one out.
\<close>

definition detect_crossings ::
  "world \<Rightarrow> string \<Rightarrow> string \<Rightarrow> pyfloat \<Rightarrow> pyfloat \<Rightarrow> int \<Rightarrow> pyfloat \<Rightarrow> string \<Rightarrow>
   pyfloat \<Rightarrow> pyfloat \<Rightarrow> state \<Rightarrow> outcome" where
  "detect_crossings w symbol interval current_rsi previous_rsi last_close_time last_price
     readable_time oversold overbought state =
     (let state = setdefault state symbol;
          r1 = alert_block w (fgt previous_rsi oversold \<and> fle current_rsi oversold)
                 ''last_oversold''
                 (message symbol interval current_rsi OVERSOLD last_price readable_time)
                 symbol last_close_time state
      in case raised r1 of
           Some e \<Rightarrow> r1
         | None \<Rightarrow>
             let r2 = alert_block w (flt previous_rsi overbought \<and> fge current_rsi overbought)
                        ''last_overbought''
                        (message symbol interval current_rsi OVERBOUGHT last_price readable_time)
                        symbol last_close_time (new_state r1)
             in r2\<lparr>alerts := alerts r1 @ alerts r2\<rparr>)"

text \<open>An exception before \<^verbatim>\<open>setdefault\<close>: nothing was sent and the state is as it was.\<close>

definition raise :: "error \<Rightarrow> state \<Rightarrow> outcome" where
  "raise e state = \<lparr>raised = Some e, new_state = state, alerts = []\<rparr>"

text \<open>
  \<^verbatim>\<open>check_symbol\<close>, lines 155 to 193. With at least \<open>period + 2\<close> closes both calls of
  \<^verbatim>\<open>compute_rsi\<close> get at least \<open>period + 1\<close> of them and neither returns \<^verbatim>\<open>None\<close> (lemma
  \<open>check_symbol_rsi_defined\<close> below); the case is written as the \<^verbatim>\<open>TypeError\<close> that comparing
  \<^verbatim>\<open>None\<close> with a float raises. \<^verbatim>\<open>closes\<close> and \<^verbatim>\<open>times\<close> (here \<open>close_times\<close>) then hold
  at least two elements, so \<^verbatim>\<open>times[-1]\<close> and \<^verbatim>\<open>closes[-1]\<close> are their last elements.
\<close>

definition check_symbol ::
  "world \<Rightarrow> string \<Rightarrow> string \<Rightarrow> nat \<Rightarrow> pyfloat \<Rightarrow> pyfloat \<Rightarrow> state \<Rightarrow> outcome" where
  "check_symbol w symbol interval period oversold overbought state =
     (case fetch_klines w symbol interval of
        Inl e \<Rightarrow> raise e state
      | Inr klines \<Rightarrow>
          (case extract_closed_closes (now_ms w) klines of
             Inl e \<Rightarrow> raise e state
           | Inr (closes, close_times) \<Rightarrow>
               if length closes < period + 2 then
                 \<lparr>raised = None, new_state = state, alerts = []\<rparr>
               else
                 (case compute_rsi closes period of
                    Inl e \<Rightarrow> raise e state
                  | Inr current_rsi \<Rightarrow>
                      (case compute_rsi (butlast closes) period of
                         Inl e \<Rightarrow> raise e state
                       | Inr previous_rsi \<Rightarrow>
                           let last_close_time = last close_times;
                               last_price = last closes
                           in
                             (case format_time w last_close_time of
                                Inl e \<Rightarrow> raise e state
                              | Inr readable_time \<Rightarrow>
                                  (case (current_rsi, previous_rsi) of
                                     (Some current_rsi, Some previous_rsi) \<Rightarrow>
                                       detect_crossings w symbol interval current_rsi
                                         previous_rsi last_close_time last_price
                                         readable_time oversold overbought state
                                   | _ \<Rightarrow> raise TypeError (setdefault state symbol)))))))"

section \<open>One cycle of the main loop\<close>

text \<open>
  The \<^verbatim>\<open>for\<close> loop of \<^verbatim>\<open>main\<close>, lines 208 and 209: the outcome so far and the symbols
  \<^verbatim>\<open>check_symbol\<close> was called for. An exception leaves the loop.
\<close>

fun check_symbols ::
  "world \<Rightarrow> string \<Rightarrow> nat \<Rightarrow> pyfloat \<Rightarrow> pyfloat \<Rightarrow> string list \<Rightarrow> state \<Rightarrow>
   outcome \<times> string list" where
  "check_symbols w interval period oversold overbought [] state =
     (\<lparr>raised = None, new_state = state, alerts = []\<rparr>, [])"
| "check_symbols w interval period oversold overbought (symbol # symbols) state =
     (let r = check_symbol w symbol interval period oversold overbought state
      in case raised r of
           Some e \<Rightarrow> (r, [symbol])
         | None \<Rightarrow>
             let (rs, evaluated) =
                   check_symbols w interval period oversold overbought symbols (new_state r)
             in (rs\<lparr>alerts := alerts r @ alerts rs\<rparr>, symbol # evaluated))"

text \<open>
  What one pass through the body of \<^verbatim>\<open>while True\<close> leaves behind (lines 207 to 214): the
  state in memory, the state handed to \<^verbatim>\<open>save_state\<close> (\<open>None\<close> when \<^verbatim>\<open>save_state\<close> was not
  called), the exception that was caught and logged, the symbols \<^verbatim>\<open>check_symbol\<close> was
  called for, and the messages handed to \<^verbatim>\<open>send_alert\<close>.
\<close>

record cycle_result =
  memory :: state
  saved :: "state option"
  logged :: "error option"
  evaluated :: "string list"
  dispatched :: "alert list"

text \<open>
  The \<^verbatim>\<open>try\<close> statement holds the whole \<^verbatim>\<open>for\<close> loop and the call of \<^verbatim>\<open>save_state\<close>, and
  its \<^verbatim>\<open>except Exception\<close> clause logs the exception.
\<close>

definition cycle ::
  "world \<Rightarrow> string list \<Rightarrow> string \<Rightarrow> nat \<Rightarrow> pyfloat \<Rightarrow> pyfloat \<Rightarrow> state \<Rightarrow> cycle_result" where
  "cycle w symbols interval period oversold overbought state =
     (let (r, called) = check_symbols w interval period oversold overbought symbols state
      in case raised r of
           Some e \<Rightarrow>
             \<lparr>memory = new_state r, saved = None, logged = Some e,
              evaluated = called, dispatched = alerts r\<rparr>
         | None \<Rightarrow>
             \<lparr>memory = new_state r, saved = Some (new_state r),
              logged = save_state w (new_state r),
              evaluated = called, dispatched = alerts r\<rparr>)"

section \<open>Auxiliary notions for the proofs\<close>

text \<open>
  The list \<^verbatim>\<open>deltas\<close> of \<^verbatim>\<open>compute_rsi\<close>, one of its two averages after the loop, as a
  function of the list of gains or of losses, and its last four lines as a function of
  the two averages.
\<close>

definition deltas_of :: "pyfloat list \<Rightarrow> pyfloat list" where
  "deltas_of closes = map (\<lambda>i. fsub (closes ! i) (closes ! (i - 1))) [1..<length closes]"

definition average_of :: "nat \<Rightarrow> pyfloat list \<Rightarrow> pyfloat" where
  "average_of period xs =
     foldl (\<lambda>avg i. smooth period avg (xs ! i))
       (fdiv (py_sum (take period xs)) (int_to_float period)) [period..<length xs]"

definition rsi_of :: "pyfloat \<Rightarrow> pyfloat \<Rightarrow> pyfloat" where
  "rsi_of avg_gain avg_loss =
     (if feq avg_loss (Fin 0) then Fin 100
      else fsub (Fin 100) (fdiv (Fin 100) (fadd (Fin 1) (fdiv avg_gain avg_loss))))"

text \<open>A float that is not below zero: a finite number from zero on, \<open>+inf\<close> or NaN.\<close>

fun not_neg :: "pyfloat \<Rightarrow> bool" where
  "not_neg (Fin a) = (0 \<le> a)"
| "not_neg PInf = True"
| "not_neg NInf = False"
| "not_neg NaN = True"

text \<open>\<^verbatim>\<open>0 <= v <= 100\<close>, as Python compares.\<close>

definition in_range :: "pyfloat \<Rightarrow> bool" where
  "in_range v = (fle (Fin 0) v \<and> fle v (Fin 100))"

text \<open>A finite float between zero and \<open>D\<close>.\<close>

fun bounded :: "real \<Rightarrow> pyfloat \<Rightarrow> bool" where
  "bounded D (Fin a) = (0 \<le> a \<and> a \<le> D)"
| "bounded D x = False"

text \<open>
  A close that is finite and so small that no sum of \<open>period\<close> differences of such closes
  overflows: \<open>2 * period * |close|\<close> is at most the largest double.
\<close>

fun small_close :: "nat \<Rightarrow> pyfloat \<Rightarrow> bool" where
  "small_close period (Fin a) = (2 * real period * \<bar>a\<bar> \<le> max_double)"
| "small_close period x = False"

text \<open>
  An alert of the given direction was handed to \<^verbatim>\<open>send_alert\<close> during the call; the key of
  the dedup field of a direction; the crossing condition of a direction.
\<close>

definition fires :: "direction \<Rightarrow> outcome \<Rightarrow> bool" where
  "fires d r = (d \<in> set (map alert_direction (alerts r)))"

definition dedup_key :: "direction \<Rightarrow> string" where
  "dedup_key d = (case d of OVERSOLD \<Rightarrow> ''last_oversold'' | OVERBOUGHT \<Rightarrow> ''last_overbought'')"

definition crossing :: "direction \<Rightarrow> pyfloat \<Rightarrow> pyfloat \<Rightarrow> pyfloat \<Rightarrow> pyfloat \<Rightarrow> bool" where
  "crossing d previous_rsi current_rsi oversold overbought =
     (case d of
        OVERSOLD \<Rightarrow> fgt previous_rsi oversold \<and> fle current_rsi oversold
      | OVERBOUGHT \<Rightarrow> flt previous_rsi overbought \<and> fge current_rsi overbought)"

text \<open>
  The call \<^verbatim>\<open>check_symbol(symbol, interval, period, ...)\<close> reaches line 171 with these
  values: the data source answers with \<open>klines\<close>, their closed candles have the closes
  \<open>closes\<close> and the close times \<open>close_times\<close>, there are at least \<open>period + 2\<close> of them, the
  two calls of \<^verbatim>\<open>compute_rsi\<close> return \<open>current_rsi\<close> and \<open>previous_rsi\<close>, and the last
  close time is formatted as \<open>readable_time\<close>.
\<close>

definition reaches_detector ::
  "world \<Rightarrow> string \<Rightarrow> string \<Rightarrow> nat \<Rightarrow> kline list \<Rightarrow> pyfloat list \<Rightarrow> int list \<Rightarrow>
   pyfloat \<Rightarrow> pyfloat \<Rightarrow> string \<Rightarrow> bool" where
  "reaches_detector w symbol interval period klines closes close_times current_rsi previous_rsi
     readable_time =
     (fetch_klines w symbol interval = Inr klines \<and>
        extract_closed_closes (now_ms w) klines = Inr (closes, close_times) \<and>
        period + 2 \<le> length closes \<and>
        compute_rsi closes period = Inr (Some current_rsi) \<and>
        compute_rsi (butlast closes) period = Inr (Some previous_rsi) \<and>
        format_time w (last close_times) = Inr readable_time)"

subsection \<open>Example worlds\<close>

text \<open>
  Candles and worlds for the examples. With period 2 the closes of \<open>falling_klines\<close> give
  the RSI 35 and then 28, those of \<open>low_klines\<close> 25 and then 28, and those of
  \<open>rising_klines\<close> 69 and then 71. In \<open>quiet_world\<close> every call to the outside succeeds; in
  \<open>failing_world\<close> the request for the candles of \<^verbatim>\<open>ETHUSDT\<close> times out; in \<open>timeout_world\<close>
  the request of \<^verbatim>\<open>send_telegram\<close> times out, so \<^verbatim>\<open>send_alert\<close> raises.
\<close>

definition candle :: "real \<Rightarrow> int \<Rightarrow> kline" where
  "candle c t = \<lparr>k_close = Inr (Fin c), k_close_time = Inr t\<rparr>"

definition quiet_world :: "kline list \<Rightarrow> world" where
  "quiet_world klines =
     \<lparr>fetch_klines = (\<lambda>symbol interval. Inr klines), now_ms = 1000,
      format_time = (\<lambda>t. Inr ''1970-01-01 00:00 UTC''),
      send_alert = (\<lambda>msg. None), save_state = (\<lambda>state. None)\<rparr>"

definition timeout_world :: "kline list \<Rightarrow> world" where
  "timeout_world klines =
     \<lparr>fetch_klines = (\<lambda>symbol interval. Inr klines), now_ms = 1000,
      format_time = (\<lambda>t. Inr ''1970-01-01 00:00 UTC''),
      send_alert = (\<lambda>msg. Some (External ''ConnectTimeout'')),
      save_state = (\<lambda>state. None)\<rparr>"

definition falling_klines :: "kline list" where
  "falling_klines = [candle 100 1, candle 107 2, candle 94 3, candle (183 / 2) 4]"

definition low_klines :: "kline list" where
  "low_klines = [candle 1000 1, candle 1300 2, candle 400 3, candle 425 4]"

definition rising_klines :: "kline list" where
  "rising_klines = [candle 0 1, candle 2001 2, candle 1102 3, candle 1202 4]"

definition failing_world :: world where
  "failing_world =
     \<lparr>fetch_klines = (\<lambda>symbol interval.
        if symbol = ''ETHUSDT'' then Inl (External ''ReadTimeout'') else Inr falling_klines),
      now_ms = 1000,
      format_time = (\<lambda>t. Inr ''1970-01-01 00:00 UTC''),
      send_alert = (\<lambda>msg. None), save_state = (\<lambda>state. None)\<rparr>"

section \<open>Float arithmetic on values that are not negative\<close>

lemma max_double_pos: "0 < max_double"
  by (simp add: max_double_def)

lemma max_double_ge_100: "100 \<le> max_double"
proof -
  have "(100::real) \<le> 1 * 2 ^ 7" by simp
  also have "\<dots> \<le> (2 ^ 53 - 1) * 2 ^ 971"
    by (intro mult_mono power_increasing) simp_all
  finally show ?thesis by (simp add: max_double_def)
qed

lemma overflow_zero [simp]: "overflow 0 = Fin 0"
  using max_double_pos by (simp add: overflow_def)

lemma overflow_small: "0 \<le> r \<Longrightarrow> r \<le> 100 \<Longrightarrow> overflow r = Fin r"
  using max_double_ge_100 by (simp add: overflow_def)

lemma overflow_not_neg: "0 \<le> r \<Longrightarrow> not_neg (overflow r)"
  using max_double_pos by (simp add: overflow_def)

lemma not_neg_max0: "not_neg (max0 x)"
  by (cases x) (simp_all add: max0_def fgt_def)

lemma not_neg_fadd: "not_neg x \<Longrightarrow> not_neg y \<Longrightarrow> not_neg (fadd x y)"
  by (cases x; cases y) (simp_all add: overflow_not_neg)

lemma not_neg_fmul: "not_neg x \<Longrightarrow> 0 \<le> k \<Longrightarrow> not_neg (fmul x (Fin k))"
  by (cases x) (simp_all add: overflow_not_neg signed_inf_def sgn_real_def)

lemma not_neg_fdiv_pos: "not_neg x \<Longrightarrow> 0 < k \<Longrightarrow> not_neg (fdiv x (Fin k))"
  by (cases x) (simp_all add: overflow_not_neg signed_inf_def)

lemma not_neg_fdiv: "not_neg x \<Longrightarrow> not_neg y \<Longrightarrow> not_neg (fdiv x y)"
  by (cases x; cases y) (simp_all add: overflow_not_neg signed_inf_def sgn_real_def)

lemma not_neg_one_plus: "not_neg x \<Longrightarrow> \<not> feq (fadd (Fin 1) x) (Fin 0)"
  by (cases x) (simp_all add: overflow_def)

lemma not_neg_smooth:
  "0 < period \<Longrightarrow> not_neg avg \<Longrightarrow> not_neg x \<Longrightarrow> not_neg (smooth period avg x)"
  by (simp add: smooth_def int_to_float_def not_neg_fdiv_pos not_neg_fadd not_neg_fmul)

lemma not_neg_foldl_fadd:
  "not_neg acc \<Longrightarrow> \<forall>x \<in> set xs. not_neg x \<Longrightarrow> not_neg (foldl fadd acc xs)"
  by (induction xs arbitrary: acc) (simp_all add: not_neg_fadd)

lemma not_neg_py_sum: "\<forall>x \<in> set xs. not_neg x \<Longrightarrow> not_neg (py_sum xs)"
  by (simp add: py_sum_def not_neg_foldl_fadd)

lemma not_neg_foldl_smooth:
  "0 < period \<Longrightarrow> not_neg a \<Longrightarrow> \<forall>x \<in> set xs. not_neg x \<Longrightarrow> \<forall>i \<in> set is. i < length xs \<Longrightarrow>
   not_neg (foldl (\<lambda>avg i. smooth period avg (xs ! i)) a is)"
  by (induction "is" arbitrary: a) (simp_all add: not_neg_smooth)

lemma not_neg_average_of:
  assumes "0 < period" and "\<forall>x \<in> set xs. not_neg x"
  shows "not_neg (average_of period xs)"
proof -
  have "\<forall>x \<in> set (take period xs). not_neg x"
    using assms(2) by (meson in_set_takeD)
  then have "not_neg (fdiv (py_sum (take period xs)) (int_to_float period))"
    using assms(1) by (simp add: int_to_float_def not_neg_fdiv_pos not_neg_py_sum)
  then show ?thesis
    unfolding average_of_def using assms
    by (intro not_neg_foldl_smooth) simp_all
qed

section \<open>The shape of \<^verbatim>\<open>compute_rsi\<close>\<close>

lemma foldl_pair:
  "foldl (\<lambda>(a, b) i. (f a i, g b i)) (a0, b0) is = (foldl f a0 is, foldl g b0 is)"
  by (induction "is" arbitrary: a0 b0) simp_all

lemma length_deltas_of [simp]: "length (deltas_of closes) = length closes - 1"
  by (simp add: deltas_of_def)

lemma compute_rsi_averages:
  assumes "0 < period" and "period + 1 \<le> length closes"
  shows "compute_rsi closes period =
     (let avg_gain = average_of period (map max0 (deltas_of closes));
          avg_loss = average_of period (map (\<lambda>d. max0 (fneg d)) (deltas_of closes))
      in if feq avg_loss (Fin 0) then Inr (Some (Fin 100))
         else if feq (fadd (Fin 1) (fdiv avg_gain avg_loss)) (Fin 0) then Inl ZeroDivisionError
         else Inr (Some (fsub (Fin 100) (fdiv (Fin 100) (fadd (Fin 1) (fdiv avg_gain avg_loss))))))"
  using assms
  by (simp add: compute_rsi_def Let_def foldl_pair average_of_def deltas_of_def)

text \<open>
  With a positive period and enough closes \<^verbatim>\<open>compute_rsi\<close> returns a float: the averages
  are not negative, so \<^verbatim>\<open>1 + rs\<close> is not zero and the last division does not raise.
\<close>

lemma compute_rsi_value:
  assumes "0 < period" and "period + 1 \<le> length closes"
  shows "compute_rsi closes period =
     Inr (Some (rsi_of (average_of period (map max0 (deltas_of closes)))
                  (average_of period (map (\<lambda>d. max0 (fneg d)) (deltas_of closes)))))"
proof -
  let ?g = "average_of period (map max0 (deltas_of closes))"
  let ?l = "average_of period (map (\<lambda>d. max0 (fneg d)) (deltas_of closes))"
  have "not_neg ?g" "not_neg ?l"
    using assms(1) by (simp_all add: not_neg_average_of not_neg_max0)
  then have "not_neg (fdiv ?g ?l)" by (rule not_neg_fdiv)
  then have "\<not> feq (fadd (Fin 1) (fdiv ?g ?l)) (Fin 0)" by (rule not_neg_one_plus)
  then show ?thesis
    using assms by (simp add: compute_rsi_averages rsi_of_def Let_def)
qed

lemma compute_rsi_period_0:
  "1 \<le> length closes \<Longrightarrow> compute_rsi closes 0 = Inl ZeroDivisionError"
  by (cases closes) (simp_all add: compute_rsi_def Let_def)

section \<open>The code computes Wilder's RSI\<close>

lemma total_from_foldl: "total_from acc xs = foldl fadd acc xs"
  by (induction xs arbitrary: acc) simp_all

lemma wilder_update_foldl:
  "0 < period \<Longrightarrow> wilder_update period avg xs = foldl (smooth period) avg xs"
  by (induction xs arbitrary: avg) (simp_all add: smooth_def int_to_float_def of_nat_diff)

lemma foldl_nth_upt:
  assumes "k \<le> length xs"
  shows "foldl (\<lambda>a i. f a (xs ! i)) a0 [k..<length xs] = foldl f a0 (drop k xs)"
proof -
  have "drop k xs = map ((!) xs) [k..<length xs]"
    by (rule nth_equalityI) simp_all
  then show ?thesis by (simp add: foldl_map)
qed

lemma length_consecutive_differences:
  "length (consecutive_differences xs) = length xs - 1"
  by (induction xs rule: consecutive_differences.induct) simp_all

lemma nth_consecutive_differences:
  "Suc i < length xs \<Longrightarrow> consecutive_differences xs ! i = fsub (xs ! Suc i) (xs ! i)"
proof (induction xs arbitrary: i rule: consecutive_differences.induct)
  case (1 x y zs)
  then show ?case by (cases i) simp_all
qed simp_all

lemma consecutive_differences_deltas: "consecutive_differences closes = deltas_of closes"
  by (rule nth_equalityI)
     (simp_all add: length_consecutive_differences nth_consecutive_differences deltas_of_def)

lemma wilder_average_eq:
  assumes "0 < period" and "period \<le> length xs"
  shows "wilder_average period xs = average_of period xs"
  using assms
  by (simp add: wilder_average_def average_of_def simple_average_def total_from_foldl
      py_sum_def int_to_float_def wilder_update_foldl foldl_nth_upt min_def)

text \<open>
  Claim C1. For a positive period and at least \<open>period + 1\<close> closes, \<^verbatim>\<open>compute_rsi\<close> returns
  a float, and it is the value of the reference definition: consecutive differences
  split into gains and losses, averages seeded with the simple average of the first
  \<open>period\<close> values and updated by \<open>avg = (avg * (period - 1) + x) / period\<close> for every
  remaining one, \<open>100\<close> when the average loss is zero and \<open>100 - 100 / (1 + rs)\<close> otherwise.
\<close>

theorem compute_rsi_is_wilder_rsi:
  assumes "0 < period" and "period + 1 \<le> length closes"
  shows "compute_rsi closes period = Inr (Some (wilder_rsi closes period))"
proof -
  have "period \<le> length (deltas_of closes)" using assms by simp
  then have "wilder_rsi closes period =
      rsi_of (average_of period (map max0 (deltas_of closes)))
        (average_of period (map (\<lambda>d. max0 (fneg d)) (deltas_of closes)))"
    using assms(1)
    by (simp add: wilder_rsi_def Let_def consecutive_differences_deltas wilder_average_eq rsi_of_def)
  then show ?thesis using assms by (simp add: compute_rsi_value)
qed

lemmas float_eval =
  compute_rsi_def py_sum_def smooth_def int_to_float_def fsub_def max0_def fgt_def fge_def
  fle_def overflow_def max_double_def signed_inf_def upt_rec

theorem compute_rsi_is_wilder_rsi_witness:
  "(0::nat) < 2 \<and> 2 + 1 \<le> length [Fin 1, Fin 2, Fin 4, Fin 3, Fin 5] \<and>
   compute_rsi [Fin 1, Fin 2, Fin 4, Fin 3, Fin 5] 2 =
     Inr (Some (wilder_rsi [Fin 1, Fin 2, Fin 4, Fin 3, Fin 5] 2)) \<and>
   wilder_rsi [Fin 1, Fin 2, Fin 4, Fin 3, Fin 5] 2 = Fin (1100 / 13)"
  using compute_rsi_is_wilder_rsi [of 2 "[Fin 1, Fin 2, Fin 4, Fin 3, Fin 5]"]
  by (simp add: float_eval)

lemma compute_rsi_short_none:
  "length closes < period + 1 \<Longrightarrow> compute_rsi closes period = Inr None"
  by (simp add: compute_rsi_def)

text \<open>Claim C6. With fewer than \<open>period + 1\<close> closes \<^verbatim>\<open>compute_rsi\<close> returns \<^verbatim>\<open>None\<close>; it
  raises nothing, whatever the period.\<close>

theorem compute_rsi_too_short:
  "length closes < period + 1 \<Longrightarrow> compute_rsi closes period = Inr None"
  by (simp add: compute_rsi_def)

theorem compute_rsi_too_short_witness:
  "length [Fin 1, Fin 2] < 2 + 1 \<and> compute_rsi [Fin 1, Fin 2] 2 = Inr None"
  using compute_rsi_too_short [of "[Fin 1, Fin 2]" 2] by simp

section \<open>A pure uptrend\<close>

lemma fle_Fin [simp]: "fle (Fin a) (Fin b) = (a \<le> b)"
  by (auto simp: fle_def)

lemma fle_NaN [simp]: "fle NaN y = False" "fle x NaN = False"
  by (cases y; simp add: fle_def) (cases x; simp add: fle_def)

lemma loss_zero: "fge d (Fin 0) \<Longrightarrow> max0 (fneg d) = Fin 0"
  by (cases d) (auto simp: max0_def fgt_def fge_def fle_def)

lemma foldl_fadd_zeros: "\<forall>x \<in> set xs. x = Fin 0 \<Longrightarrow> foldl fadd (Fin 0) xs = Fin 0"
  by (induction xs) simp_all

lemma smooth_zero: "0 < period \<Longrightarrow> smooth period (Fin 0) (Fin 0) = Fin 0"
  by (simp add: smooth_def int_to_float_def)

lemma foldl_smooth_zeros:
  "0 < period \<Longrightarrow> \<forall>i \<in> set is. xs ! i = Fin 0 \<Longrightarrow>
   foldl (\<lambda>avg i. smooth period avg (xs ! i)) (Fin 0) is = Fin 0"
  by (induction "is") (simp_all add: smooth_zero)

lemma average_of_zeros:
  assumes "0 < period" and "\<forall>x \<in> set xs. x = Fin 0"
  shows "average_of period xs = Fin 0"
proof -
  have "\<forall>x \<in> set (take period xs). x = Fin 0"
    using assms(2) by (meson in_set_takeD)
  then have "fdiv (py_sum (take period xs)) (int_to_float period) = Fin 0"
    using assms(1) by (simp add: py_sum_def foldl_fadd_zeros int_to_float_def)
  moreover have "\<forall>i \<in> set [period..<length xs]. xs ! i = Fin 0"
    using assms(2) by simp
  ultimately show ?thesis
    using assms(1) by (simp add: average_of_def foldl_smooth_zeros)
qed

text \<open>
  Claim C7. With a positive period and at least \<open>period + 1\<close> closes whose consecutive
  differences, as \<^verbatim>\<open>compute_rsi\<close> computes them, are all \<^verbatim>\<open>>= 0\<close>, every loss is zero, the
  average loss is zero and the result is exactly \<open>100.0\<close>.
\<close>

theorem compute_rsi_uptrend:
  assumes "0 < period" and "period + 1 \<le> length closes"
    and up: "\<forall>i. 1 \<le> i \<and> i < length closes \<longrightarrow> fge (fsub (closes ! i) (closes ! (i - 1))) (Fin 0)"
  shows "compute_rsi closes period = Inr (Some (Fin 100))"
proof -
  have "\<forall>d \<in> set (deltas_of closes). fge d (Fin 0)"
    using up by (auto simp: deltas_of_def)
  then have "\<forall>x \<in> set (map (\<lambda>d. max0 (fneg d)) (deltas_of closes)). x = Fin 0"
    by (simp add: loss_zero)
  then have "average_of period (map (\<lambda>d. max0 (fneg d)) (deltas_of closes)) = Fin 0"
    using assms(1) by (rule average_of_zeros [rotated])
  then show ?thesis
    using assms(1,2) by (simp add: compute_rsi_value rsi_of_def)
qed

theorem compute_rsi_uptrend_witness:
  "(0::nat) < 2 \<and> 2 + 1 \<le> length [Fin 100, Fin 102, Fin 104, Fin 104] \<and>
   fge (fsub (Fin 102) (Fin 100)) (Fin 0) \<and> fge (fsub (Fin 104) (Fin 102)) (Fin 0) \<and>
   fge (fsub (Fin 104) (Fin 104)) (Fin 0) \<and>
   compute_rsi [Fin 100, Fin 102, Fin 104, Fin 104] 2 = Inr (Some (Fin 100))"
  using compute_rsi_uptrend [of 2 "[Fin 100, Fin 102, Fin 104, Fin 104]"]
  by (simp add: float_eval nth_Cons' less_Suc_eq)

section \<open>The range of the RSI\<close>

lemma in_range_100: "in_range (Fin 100)"
  by (simp add: in_range_def)

lemma rsi_formula_range:
  assumes nn: "not_neg rs"
  shows "(rs = NaN \<longrightarrow> fsub (Fin 100) (fdiv (Fin 100) (fadd (Fin 1) rs)) = NaN) \<and>
     (rs \<noteq> NaN \<longrightarrow> in_range (fsub (Fin 100) (fdiv (Fin 100) (fadd (Fin 1) rs))))"
proof (cases rs)
  case (Fin r)
  with nn have r: "0 \<le> r" by simp
  show ?thesis
  proof (cases "max_double < 1 + r")
    case True
    then show ?thesis using Fin max_double_ge_100
      by (simp add: overflow_def fsub_def in_range_def)
  next
    case False
    have q: "0 \<le> 100 / (1 + r)" "100 / (1 + r) \<le> 100"
      using r by (simp_all add: divide_le_eq)
    have o1: "overflow (100 / (1 + r)) = Fin (100 / (1 + r))"
      using q by (rule overflow_small)
    have o2: "overflow (100 - 100 / (1 + r)) = Fin (100 - 100 / (1 + r))"
      using q by (intro overflow_small) simp_all
    have "fadd (Fin 1) rs = Fin (1 + r)"
      using Fin False r max_double_pos by (simp add: overflow_def)
    moreover have "1 + r \<noteq> 0" using r by simp
    ultimately have "fdiv (Fin 100) (fadd (Fin 1) rs) = Fin (100 / (1 + r))"
      using o1 by simp
    then show ?thesis using q o2 Fin by (simp add: fsub_def in_range_def)
  qed
next
  case PInf
  then show ?thesis using max_double_ge_100
    by (simp add: fsub_def overflow_def in_range_def)
next
  case NInf
  with nn show ?thesis by simp
next
  case NaN
  then show ?thesis by (simp add: fsub_def)
qed

lemma rsi_of_range:
  assumes "not_neg g" and "not_neg l"
  shows "rsi_of g l = NaN \<or> in_range (rsi_of g l)"
proof (cases "feq l (Fin 0)")
  case True
  then show ?thesis by (simp add: rsi_of_def in_range_100)
next
  case False
  have "not_neg (fdiv g l)" using assms by (rule not_neg_fdiv)
  from rsi_formula_range [OF this] False show ?thesis
    by (auto simp: rsi_of_def)
qed

lemma overflow_id: "\<bar>r\<bar> \<le> max_double \<Longrightarrow> overflow r = Fin r"
  by (auto simp: overflow_def)

lemma bounded_iff: "bounded D x \<longleftrightarrow> (\<exists>a. x = Fin a \<and> 0 \<le> a \<and> a \<le> D)"
  by (cases x) simp_all

lemma bounded_max0:
  "\<bar>d\<bar> \<le> D \<Longrightarrow> bounded D (max0 (Fin d))"
  "\<bar>d\<bar> \<le> D \<Longrightarrow> bounded D (max0 (fneg (Fin d)))"
  by (auto simp: max0_def fgt_def)

lemma fsub_small:
  assumes "\<bar>a\<bar> \<le> D / 2" and "\<bar>b\<bar> \<le> D / 2" and "D \<le> max_double"
  shows "fsub (Fin a) (Fin b) = Fin (a - b)" and "\<bar>a - b\<bar> \<le> D"
proof -
  show "\<bar>a - b\<bar> \<le> D" using assms(1,2) by linarith
  then have "\<bar>a + - b\<bar> \<le> max_double" using assms(3) by simp
  then show "fsub (Fin a) (Fin b) = Fin (a - b)"
    by (simp add: fsub_def overflow_id del: abs_minus_commute)
qed

lemma bounded_foldl_fadd:
  "\<forall>x \<in> set xs. bounded D x \<Longrightarrow> 0 \<le> s \<Longrightarrow> s + D * real (length xs) \<le> max_double \<Longrightarrow> 0 \<le> D \<Longrightarrow>
   bounded (s + D * real (length xs)) (foldl fadd (Fin s) xs)"
proof (induction xs arbitrary: s)
  case Nil
  then show ?case by simp
next
  case (Cons x xs)
  from Cons.prems(1) obtain a where x: "x = Fin a" "0 \<le> a" "a \<le> D"
    by (auto simp: bounded_iff)
  have le: "s + a + D * real (length xs) \<le> s + D * real (length (x # xs))"
    using x by (simp add: algebra_simps)
  have "0 \<le> D * real (length xs)" using Cons.prems(4) by simp
  then have "s + a \<le> max_double"
    using Cons.prems(3) le by linarith
  then have "\<bar>s + a\<bar> \<le> max_double"
    using Cons.prems(2) x(2) by simp
  then have step: "fadd (Fin s) x = Fin (s + a)" using x by (simp add: overflow_id)
  have "bounded (s + a + D * real (length xs)) (foldl fadd (Fin (s + a)) xs)"
    using Cons.prems x le by (intro Cons.IH) simp_all
  then show ?case using step le by (auto simp: bounded_iff)
qed

lemma bounded_seed:
  assumes "\<forall>x \<in> set xs. bounded D x" and "0 < period" and "D * real period \<le> max_double"
    and "0 \<le> D" and "length xs \<le> period"
  shows "bounded D (fdiv (py_sum xs) (int_to_float period))"
proof -
  have "D * real (length xs) \<le> D * real period"
    using assms(4,5) by (simp add: mult_left_mono)
  then have "bounded (0 + D * real (length xs)) (foldl fadd (Fin 0) xs)"
    using assms by (intro bounded_foldl_fadd) simp_all
  then obtain t where t: "py_sum xs = Fin t" "0 \<le> t" "t \<le> D * real (length xs)"
    by (auto simp: bounded_iff py_sum_def)
  have "t \<le> D * real period"
    using t(3) \<open>D * real (length xs) \<le> D * real period\<close> by simp
  then have q: "t / real period \<le> D"
    using assms(2) by (simp add: divide_le_eq)
  have "D \<le> D * real period" using assms(2,4) by (simp add: mult_le_cancel_left1)
  then have "\<bar>t / real period\<bar> \<le> max_double"
    using q t(2) assms(3) by simp
  then show ?thesis
    using t q assms(2) by (simp add: int_to_float_def overflow_id)
qed

lemma bounded_smooth:
  assumes "bounded D avg" and "bounded D x" and "0 < period" and "D * real period \<le> max_double"
  shows "bounded D (smooth period avg x)"
proof -
  from assms(1) obtain a where a: "avg = Fin a" "0 \<le> a" "a \<le> D" by (auto simp: bounded_iff)
  from assms(2) obtain b where b: "x = Fin b" "0 \<le> b" "b \<le> D" by (auto simp: bounded_iff)
  let ?k = "real (period - 1)"
  have k: "?k + 1 = real period" "0 \<le> ?k" using assms(3) by simp_all
  have ak: "a * ?k \<le> D * ?k" using a k by (simp add: mult_right_mono)
  have "D * ?k + D = D * real period" using k(1) by (simp add: algebra_simps)
  then have sum_le: "a * ?k + b \<le> D * real period" using ak b by linarith
  have nn: "0 \<le> a * ?k" using a k by simp
  have "\<bar>a * ?k\<bar> \<le> max_double" using nn sum_le b assms(4) by simp
  then have m: "fmul avg (int_to_float (period - 1)) = Fin (a * ?k)"
    using a by (simp add: int_to_float_def overflow_id)
  have "\<bar>a * ?k + b\<bar> \<le> max_double" using nn sum_le b assms(4) by simp
  then have s: "fadd (Fin (a * ?k)) x = Fin (a * ?k + b)"
    using b by (simp add: overflow_id)
  have q: "(a * ?k + b) / real period \<le> D" "0 \<le> (a * ?k + b) / real period"
    using sum_le nn b assms(3) by (simp_all add: divide_le_eq)
  have "0 \<le> D" using a by simp
  then have "D \<le> D * real period" using assms(3) by (simp add: mult_le_cancel_left1)
  then have "\<bar>(a * ?k + b) / real period\<bar> \<le> max_double" using q assms(4) by simp
  then have "smooth period avg x = Fin ((a * ?k + b) / real period)"
    using m s assms(3) by (simp add: smooth_def int_to_float_def overflow_id)
  then show ?thesis using q by simp
qed

lemma bounded_foldl_smooth:
  "0 < period \<Longrightarrow> D * real period \<le> max_double \<Longrightarrow> bounded D a \<Longrightarrow>
   \<forall>x \<in> set xs. bounded D x \<Longrightarrow> \<forall>i \<in> set is. i < length xs \<Longrightarrow>
   bounded D (foldl (\<lambda>avg i. smooth period avg (xs ! i)) a is)"
  by (induction "is" arbitrary: a) (simp_all add: bounded_smooth)

lemma bounded_average_of:
  assumes "0 < period" and "D * real period \<le> max_double" and "0 \<le> D"
    and "\<forall>x \<in> set xs. bounded D x"
  shows "bounded D (average_of period xs)"
proof -
  have "\<forall>x \<in> set (take period xs). bounded D x"
    using assms(4) by (meson in_set_takeD)
  then have "bounded D (fdiv (py_sum (take period xs)) (int_to_float period))"
    using assms by (intro bounded_seed) simp_all
  then show ?thesis
    unfolding average_of_def using assms
    by (intro bounded_foldl_smooth) simp_all
qed

lemma rsi_of_bounded:
  assumes "bounded D g" and "bounded D l"
  shows "in_range (rsi_of g l)"
proof (cases "feq l (Fin 0)")
  case True
  then show ?thesis by (simp add: rsi_of_def in_range_100)
next
  case False
  from assms obtain a b where ab: "g = Fin a" "0 \<le> a" "l = Fin b" "0 \<le> b"
    by (auto simp: bounded_iff)
  with False have "b \<noteq> 0" by simp
  then have "fdiv g l = overflow (a / b)" using ab by simp
  moreover have "0 \<le> a / b" using ab by simp
  ultimately have "not_neg (fdiv g l)" "fdiv g l \<noteq> NaN"
    using max_double_pos by (simp_all add: overflow_def)
  with rsi_formula_range [of "fdiv g l"] False show ?thesis
    by (simp add: rsi_of_def)
qed

lemma bounded_deltas:
  assumes "0 < period" and "\<forall>c \<in> set closes. small_close period c"
  shows "\<forall>d \<in> set (deltas_of closes). \<exists>r. d = Fin r \<and> \<bar>r\<bar> \<le> max_double / real period"
proof
  fix d assume "d \<in> set (deltas_of closes)"
  then obtain i where i: "1 \<le> i" "i < length closes" "d = fsub (closes ! i) (closes ! (i - 1))"
    by (auto simp: deltas_of_def)
  let ?D = "max_double / real period"
  have small: "\<exists>a. c = Fin a \<and> \<bar>a\<bar> \<le> ?D / 2" if "c \<in> set closes" for c
  proof -
    from that assms(2) have "small_close period c" by simp
    then obtain a where a: "c = Fin a" "2 * real period * \<bar>a\<bar> \<le> max_double"
      by (cases c) simp_all
    then have "\<bar>a\<bar> \<le> ?D / 2" using assms(1) by (simp add: field_simps)
    with a(1) show ?thesis by simp
  qed
  from small [of "closes ! i"] i obtain a where a: "closes ! i = Fin a" "\<bar>a\<bar> \<le> ?D / 2" by auto
  from small [of "closes ! (i - 1)"] i obtain b where b: "closes ! (i - 1) = Fin b" "\<bar>b\<bar> \<le> ?D / 2" by auto
  have "?D \<le> max_double" using assms(1) max_double_pos by (simp add: divide_le_eq mult_le_cancel_left1)
  from fsub_small [OF a(2) b(2) this] show "\<exists>r. d = Fin r \<and> \<bar>r\<bar> \<le> ?D"
    using i(3) a(1) b(1) by simp
qed

lemma compute_rsi_defined:
  assumes "compute_rsi closes period = Inr (Some v)"
  shows "0 < period" and "period + 1 \<le> length closes"
proof -
  show len: "period + 1 \<le> length closes"
    using assms by (cases "length closes < period + 1") (simp_all add: compute_rsi_short_none)
  then show "0 < period"
    using assms by (cases "period = 0") (simp_all add: compute_rsi_period_0)
qed

lemma compute_rsi_nan_or_in_range:
  assumes "compute_rsi closes period = Inr (Some v)"
  shows "v = NaN \<or> in_range v"
proof -
  note pos = compute_rsi_defined(1) [OF assms] and len = compute_rsi_defined(2) [OF assms]
  let ?g = "average_of period (map max0 (deltas_of closes))"
  let ?l = "average_of period (map (\<lambda>d. max0 (fneg d)) (deltas_of closes))"
  have "not_neg ?g" "not_neg ?l"
    using pos by (simp_all add: not_neg_average_of not_neg_max0)
  then have "rsi_of ?g ?l = NaN \<or> in_range (rsi_of ?g ?l)" by (rule rsi_of_range)
  moreover have "v = rsi_of ?g ?l"
    using assms compute_rsi_value [OF pos len] by simp
  ultimately show ?thesis by simp
qed

lemma compute_rsi_small_in_range:
  assumes "0 < period" and "period + 1 \<le> length closes"
    and "\<forall>c \<in> set closes. small_close period c"
  shows "\<exists>v. compute_rsi closes period = Inr (Some v) \<and> in_range v"
proof -
  let ?D = "max_double / real period"
  have D: "?D * real period \<le> max_double" "0 \<le> ?D"
    using assms(1) max_double_pos by simp_all
  have d: "\<forall>d \<in> set (deltas_of closes). \<exists>r. d = Fin r \<and> \<bar>r\<bar> \<le> ?D"
    using assms(1,3) by (rule bounded_deltas)
  have "\<forall>x \<in> set (map max0 (deltas_of closes)). bounded ?D x"
    using d by (auto simp: bounded_max0)
  then have g: "bounded ?D (average_of period (map max0 (deltas_of closes)))"
    using assms(1) D by (intro bounded_average_of)
  have "\<forall>x \<in> set (map (\<lambda>d. max0 (fneg d)) (deltas_of closes)). bounded ?D x"
    using d by (auto simp: bounded_max0)
  then have l: "bounded ?D (average_of period (map (\<lambda>d. max0 (fneg d)) (deltas_of closes)))"
    using assms(1) D by (intro bounded_average_of)
  show ?thesis
    using rsi_of_bounded [OF g l] assms(1,2) by (simp add: compute_rsi_value)
qed

text \<open>
  Claim C8, as amended. A value returned by \<^verbatim>\<open>compute_rsi\<close> is NaN or lies in \<open>[0, 100]\<close>, and
  it lies in \<open>[0, 100]\<close> when every close is finite and small enough that no intermediate
  sum overflows (\<open>2 * period * |close|\<close> is at most the largest double).
\<close>

theorem compute_rsi_range:
  assumes "compute_rsi closes period = Inr (Some v)"
  shows "(v = NaN \<or> in_range v) \<and> ((\<forall>c \<in> set closes. small_close period c) \<longrightarrow> in_range v)"
  using assms compute_rsi_nan_or_in_range [OF assms] compute_rsi_defined [OF assms]
    compute_rsi_small_in_range [of period closes]
  by auto

theorem compute_rsi_range_witness:
  "compute_rsi [Fin 1, Fin 2, Fin 4, Fin 3, Fin 5] 2 = Inr (Some (Fin (1100 / 13))) \<and>
   small_close 2 (Fin 1) \<and> small_close 2 (Fin 2) \<and> small_close 2 (Fin 4) \<and>
   small_close 2 (Fin 3) \<and> small_close 2 (Fin 5) \<and> in_range (Fin (1100 / 13))"
  using compute_rsi_range [of "[Fin 1, Fin 2, Fin 4, Fin 3, Fin 5]" 2 "Fin (1100 / 13)"]
  by (simp add: float_eval)

text \<open>
  The claim as the specification states it fails: with the finite closes
  \<^verbatim>\<open>[1e308, -1e308, 1e308]\<close> and period 1 the two differences overflow to \<^verbatim>\<open>-inf\<close> and
  \<^verbatim>\<open>inf\<close>, the average loss becomes \<^verbatim>\<open>inf * 0\<close>, and the function returns NaN, which
  is not in \<open>[0, 100]\<close>.
\<close>

theorem compute_rsi_range_counterexample:
  "compute_rsi [Fin (10 ^ 308), Fin (- (10 ^ 308)), Fin (10 ^ 308)] 1 = Inr (Some NaN) \<and>
   \<not> in_range NaN"
  by (simp add: float_eval in_range_def)

section \<open>Reading and writing the dedup state\<close>

lemma setdefault_other [simp]: "s \<noteq> symbol \<Longrightarrow> setdefault state symbol s = state s"
  by (simp add: setdefault_def split: option.splits)

lemma setdefault_defined [simp]: "setdefault state symbol symbol \<noteq> None"
  by (simp add: setdefault_def split: option.splits)

lemma get_field_setdefault [simp]:
  "get_field (setdefault state symbol) symbol key = get_field state symbol key"
  by (simp add: setdefault_def get_field_def split: option.splits)

lemma setdefault_idem [simp]: "setdefault (setdefault state symbol) symbol = setdefault state symbol"
  by (simp add: setdefault_def split: option.splits)

lemma set_field_other [simp]: "s \<noteq> symbol \<Longrightarrow> set_field state symbol key v s = state s"
  by (simp add: set_field_def split: option.splits)

lemma set_field_defined [simp]:
  "(set_field state symbol key v symbol = None) = (state symbol = None)"
  by (simp add: set_field_def split: option.splits)

lemma get_field_set_field:
  "state symbol \<noteq> None \<Longrightarrow>
   get_field (set_field state symbol key v) symbol k = (if k = key then Some v else get_field state symbol k)"
  by (auto simp: set_field_def get_field_def split: option.splits)

lemma setdefault_set_field [simp]:
  "state symbol \<noteq> None \<Longrightarrow> setdefault (set_field state symbol key v) symbol = set_field state symbol key v"
  by (auto simp: set_field_def setdefault_def split: option.splits)

lemma setdefault_self:
  "setdefault state symbol symbol =
     Some (case state symbol of None \<Rightarrow> Map.empty | Some symbol_state \<Rightarrow> symbol_state)"
  by (simp add: setdefault_def split: option.splits)

lemma set_field_setdefault_self:
  "set_field (setdefault state symbol) symbol key v symbol =
     Some ((case state symbol of None \<Rightarrow> Map.empty | Some symbol_state \<Rightarrow> symbol_state)(key \<mapsto> v))"
  by (simp add: set_field_def setdefault_def split: option.splits)

lemma get_field_set_field_setdefault [simp]:
  "get_field (set_field (setdefault state symbol) symbol key v) symbol k =
     (if k = key then Some v else get_field state symbol k)"
  by (simp add: get_field_set_field)

lemma setdefault_set_field_setdefault [simp]:
  "setdefault (set_field (setdefault state symbol) symbol key v) symbol =
     set_field (setdefault state symbol) symbol key v"
  by simp

lemma setdefault_id: "state symbol \<noteq> None \<Longrightarrow> setdefault state symbol = state"
  by (auto simp: setdefault_def split: option.splits)

section \<open>The outcomes of the crossing detector\<close>

lemma alerts_alert_block:
  "alerts (alert_block w crossed key msg symbol t state) =
     (if crossed \<and> get_field state symbol key \<noteq> Some t then [msg] else [])"
  by (simp add: alert_block_def split: option.splits)

lemma raised_alert_block:
  "raised (alert_block w crossed key msg symbol t state) =
     (if crossed \<and> get_field state symbol key \<noteq> Some t then send_alert w msg else None)"
  by (simp add: alert_block_def split: option.splits)

lemma new_state_alert_block:
  "new_state (alert_block w crossed key msg symbol t state) =
     (if crossed \<and> get_field state symbol key \<noteq> Some t \<and> send_alert w msg = None
      then set_field state symbol key t else state)"
  by (simp add: alert_block_def split: option.splits)

lemmas alert_block_simps = alerts_alert_block raised_alert_block new_state_alert_block

text \<open>The two crossing conditions exclude each other.\<close>

lemma crossings_exclusive:
  "\<not> (fgt previous_rsi oversold \<and> fle current_rsi oversold \<and>
      flt previous_rsi overbought \<and> fge current_rsi overbought)"
  by (cases previous_rsi; cases current_rsi; cases oversold; cases overbought)
     (auto simp: fgt_def fle_def fge_def)

lemma check_symbol_reaches:
  assumes "reaches_detector w symbol interval period klines closes close_times current_rsi
    previous_rsi readable_time"
  shows "check_symbol w symbol interval period oversold overbought state =
     detect_crossings w symbol interval current_rsi previous_rsi (last close_times) (last closes)
       readable_time oversold overbought state"
  using assms by (auto simp: reaches_detector_def check_symbol_def Let_def)

lemma detect_crossings_oversold:
  assumes "fgt previous_rsi oversold \<and> fle current_rsi oversold"
    and "get_field state symbol ''last_oversold'' \<noteq> Some t"
  shows "detect_crossings w symbol interval current_rsi previous_rsi t price rt oversold overbought state =
     (let msg = message symbol interval current_rsi OVERSOLD price rt in
      case send_alert w msg of
        Some e \<Rightarrow> \<lparr>raised = Some e, new_state = setdefault state symbol, alerts = [msg]\<rparr>
      | None \<Rightarrow> \<lparr>raised = None,
                 new_state = set_field (setdefault state symbol) symbol ''last_oversold'' t,
                 alerts = [msg]\<rparr>)"
proof -
  have "\<not> (flt previous_rsi overbought \<and> fge current_rsi overbought)"
    using assms(1) crossings_exclusive [of previous_rsi oversold current_rsi overbought] by blast
  then show ?thesis
    using assms by (auto simp: detect_crossings_def Let_def alert_block_def split: option.splits)
qed

lemma detect_crossings_overbought:
  assumes "\<not> (fgt previous_rsi oversold \<and> fle current_rsi oversold \<and>
              get_field state symbol ''last_oversold'' \<noteq> Some t)"
    and "flt previous_rsi overbought \<and> fge current_rsi overbought"
    and "get_field state symbol ''last_overbought'' \<noteq> Some t"
  shows "detect_crossings w symbol interval current_rsi previous_rsi t price rt oversold overbought state =
     (let msg = message symbol interval current_rsi OVERBOUGHT price rt in
      case send_alert w msg of
        Some e \<Rightarrow> \<lparr>raised = Some e, new_state = setdefault state symbol, alerts = [msg]\<rparr>
      | None \<Rightarrow> \<lparr>raised = None,
                 new_state = set_field (setdefault state symbol) symbol ''last_overbought'' t,
                 alerts = [msg]\<rparr>)"
  using assms by (auto simp: detect_crossings_def Let_def alert_block_def split: option.splits)

lemma detect_crossings_none:
  assumes "\<not> (fgt previous_rsi oversold \<and> fle current_rsi oversold \<and>
              get_field state symbol ''last_oversold'' \<noteq> Some t)"
    and "\<not> (flt previous_rsi overbought \<and> fge current_rsi overbought \<and>
              get_field state symbol ''last_overbought'' \<noteq> Some t)"
  shows "detect_crossings w symbol interval current_rsi previous_rsi t price rt oversold overbought state =
     \<lparr>raised = None, new_state = setdefault state symbol, alerts = []\<rparr>"
  using assms by (auto simp: detect_crossings_def Let_def alert_block_def split: option.splits)

lemma fires_oversold_iff:
  "fires OVERSOLD (detect_crossings w symbol interval current_rsi previous_rsi t price rt oversold overbought state)
   \<longleftrightarrow> fgt previous_rsi oversold \<and> fle current_rsi oversold \<and>
         get_field state symbol ''last_oversold'' \<noteq> Some t"
  by (auto simp: fires_def detect_crossings_def Let_def alert_block_simps message_def split: option.splits)

lemma fires_overbought_iff:
  "fires OVERBOUGHT (detect_crossings w symbol interval current_rsi previous_rsi t price rt oversold overbought state)
   \<longleftrightarrow> flt previous_rsi overbought \<and> fge current_rsi overbought \<and>
         get_field state symbol ''last_overbought'' \<noteq> Some t \<and>
         \<not> (fgt previous_rsi oversold \<and> fle current_rsi oversold)"
  using crossings_exclusive [of previous_rsi oversold current_rsi overbought]
  by (auto simp: fires_def detect_crossings_def Let_def alert_block_simps message_def
      split: option.splits)

lemma detect_crossings_oversold_state:
  assumes "fires OVERSOLD (detect_crossings w symbol interval current_rsi previous_rsi t price rt oversold overbought state)"
    and "raised (detect_crossings w symbol interval current_rsi previous_rsi t price rt oversold overbought state) = None"
  shows "get_field (new_state (detect_crossings w symbol interval current_rsi previous_rsi t price rt oversold overbought state))
           symbol ''last_oversold'' = Some t"
proof -
  from assms(1) have c: "fgt previous_rsi oversold \<and> fle current_rsi oversold"
    and d: "get_field state symbol ''last_oversold'' \<noteq> Some t"
    by (simp_all add: fires_oversold_iff)
  show ?thesis
    using assms(2) unfolding detect_crossings_oversold [OF c d]
    by (simp add: Let_def get_field_set_field split: option.splits)
qed

lemma detect_crossings_overbought_state:
  assumes "fires OVERBOUGHT (detect_crossings w symbol interval current_rsi previous_rsi t price rt oversold overbought state)"
    and "raised (detect_crossings w symbol interval current_rsi previous_rsi t price rt oversold overbought state) = None"
  shows "get_field (new_state (detect_crossings w symbol interval current_rsi previous_rsi t price rt oversold overbought state))
           symbol ''last_overbought'' = Some t"
proof -
  from assms(1) have c: "flt previous_rsi overbought \<and> fge current_rsi overbought"
    and d: "get_field state symbol ''last_overbought'' \<noteq> Some t"
    and n: "\<not> (fgt previous_rsi oversold \<and> fle current_rsi oversold \<and>
              get_field state symbol ''last_oversold'' \<noteq> Some t)"
    by (auto simp: fires_overbought_iff)
  show ?thesis
    using assms(2) unfolding detect_crossings_overbought [OF n c d]
    by (simp add: Let_def get_field_set_field split: option.splits)
qed

lemma fires_iff:
  "fires d (detect_crossings w symbol interval current_rsi previous_rsi t price rt oversold overbought state)
   \<longleftrightarrow> crossing d previous_rsi current_rsi oversold overbought \<and>
         get_field state symbol (dedup_key d) \<noteq> Some t"
  using crossings_exclusive [of previous_rsi oversold current_rsi overbought]
  by (cases d) (auto simp: fires_oversold_iff fires_overbought_iff crossing_def dedup_key_def)

lemma detect_crossings_state:
  assumes "fires d (detect_crossings w symbol interval current_rsi previous_rsi t price rt oversold overbought state)"
    and "raised (detect_crossings w symbol interval current_rsi previous_rsi t price rt oversold overbought state) = None"
  shows "get_field (new_state (detect_crossings w symbol interval current_rsi previous_rsi t price rt oversold overbought state))
           symbol (dedup_key d) = Some t"
  using assms detect_crossings_oversold_state detect_crossings_overbought_state
  by (cases d) (simp_all add: dedup_key_def)

lemma detect_crossings_twice:
  assumes "raised (detect_crossings w symbol interval current_rsi previous_rsi t price rt oversold overbought state) = None"
  shows "detect_crossings w symbol interval current_rsi previous_rsi t price rt oversold overbought
           (new_state (detect_crossings w symbol interval current_rsi previous_rsi t price rt oversold overbought state))
         = \<lparr>raised = None,
            new_state = new_state (detect_crossings w symbol interval current_rsi previous_rsi t price rt oversold overbought state),
            alerts = []\<rparr>"
proof -
  let ?c1 = "fgt previous_rsi oversold \<and> fle current_rsi oversold"
  let ?c2 = "flt previous_rsi overbought \<and> fge current_rsi overbought"
  let ?r = "detect_crossings w symbol interval current_rsi previous_rsi t price rt oversold overbought state"
  note excl = crossings_exclusive [of previous_rsi oversold current_rsi overbought]
  have silent: "detect_crossings w symbol interval current_rsi previous_rsi t price rt oversold overbought s
       = \<lparr>raised = None, new_state = s, alerts = []\<rparr>"
    if "\<not> (?c1 \<and> get_field s symbol ''last_oversold'' \<noteq> Some t)"
      and "\<not> (?c2 \<and> get_field s symbol ''last_overbought'' \<noteq> Some t)"
      and "setdefault s symbol = s" for s
    using that detect_crossings_none [of previous_rsi oversold current_rsi s symbol t overbought]
    by simp
  consider (os) "?c1" "get_field state symbol ''last_oversold'' \<noteq> Some t"
    | (ob) "\<not> (fgt previous_rsi oversold \<and> fle current_rsi oversold \<and>
                 get_field state symbol ''last_oversold'' \<noteq> Some t)"
           "?c2" "get_field state symbol ''last_overbought'' \<noteq> Some t"
    | (none) "\<not> (fgt previous_rsi oversold \<and> fle current_rsi oversold \<and>
                   get_field state symbol ''last_oversold'' \<noteq> Some t)"
             "\<not> (flt previous_rsi overbought \<and> fge current_rsi overbought \<and>
                   get_field state symbol ''last_overbought'' \<noteq> Some t)"
    by blast
  then show ?thesis
  proof cases
    case os
    with excl have nc2: "\<not> ?c2" by blast
    from assms have sent: "send_alert w (message symbol interval current_rsi OVERSOLD price rt) = None"
      unfolding detect_crossings_oversold [OF os] by (simp add: Let_def split: option.splits)
    have st: "new_state ?r = set_field (setdefault state symbol) symbol ''last_oversold'' t"
      unfolding detect_crossings_oversold [OF os] using sent by (simp add: Let_def)
    show ?thesis unfolding st using nc2 by (intro silent) auto
  next
    case ob
    from assms have sent: "send_alert w (message symbol interval current_rsi OVERBOUGHT price rt) = None"
      unfolding detect_crossings_overbought [OF ob] by (simp add: Let_def split: option.splits)
    have st: "new_state ?r = set_field (setdefault state symbol) symbol ''last_overbought'' t"
      unfolding detect_crossings_overbought [OF ob] using sent by (simp add: Let_def)
    show ?thesis unfolding st using ob(1) by (intro silent) auto
  next
    case none
    have st: "new_state ?r = setdefault state symbol"
      unfolding detect_crossings_none [OF none] by simp
    show ?thesis unfolding st using none by (intro silent) auto
  qed
qed

lemma detect_crossings_cases:
  fixes w symbol interval current_rsi previous_rsi t price rt oversold overbought state
  defines "r \<equiv> detect_crossings w symbol interval current_rsi previous_rsi t price rt oversold overbought state"
  obtains (none) "r = \<lparr>raised = None, new_state = setdefault state symbol, alerts = []\<rparr>"
  | (sent) d where
      "r = \<lparr>raised = None,
            new_state = set_field (setdefault state symbol) symbol (dedup_key d) t,
            alerts = [message symbol interval current_rsi d price rt]\<rparr>"
  | (failed) d e where
      "r = \<lparr>raised = Some e, new_state = setdefault state symbol,
            alerts = [message symbol interval current_rsi d price rt]\<rparr>"
proof -
  let ?c1 = "fgt previous_rsi oversold \<and> fle current_rsi oversold"
  let ?d1 = "get_field state symbol ''last_oversold'' \<noteq> Some t"
  let ?c2 = "flt previous_rsi overbought \<and> fge current_rsi overbought"
  let ?d2 = "get_field state symbol ''last_overbought'' \<noteq> Some t"
  consider (os) "?c1" "?d1"
    | (ob) "\<not> (fgt previous_rsi oversold \<and> fle current_rsi oversold \<and> ?d1)" "?c2" "?d2"
    | (no) "\<not> (fgt previous_rsi oversold \<and> fle current_rsi oversold \<and> ?d1)"
           "\<not> (flt previous_rsi overbought \<and> fge current_rsi overbought \<and> ?d2)" by blast
  then show thesis
  proof cases
    case os
    show thesis
    proof (cases "send_alert w (message symbol interval current_rsi OVERSOLD price rt)")
      case None
      then show thesis
        using sent [of OVERSOLD] unfolding r_def detect_crossings_oversold [OF os]
        by (simp add: Let_def dedup_key_def)
    next
      case (Some e)
      then show thesis
        using failed [of e OVERSOLD] unfolding r_def detect_crossings_oversold [OF os]
        by (simp add: Let_def)
    qed
  next
    case ob
    show thesis
    proof (cases "send_alert w (message symbol interval current_rsi OVERBOUGHT price rt)")
      case None
      then show thesis
        using sent [of OVERBOUGHT] unfolding r_def detect_crossings_overbought [OF ob]
        by (simp add: Let_def dedup_key_def)
    next
      case (Some e)
      then show thesis
        using failed [of e OVERBOUGHT] unfolding r_def detect_crossings_overbought [OF ob]
        by (simp add: Let_def)
    qed
  next
    case no
    then show thesis using none unfolding r_def detect_crossings_none [OF no] by simp
  qed
qed

lemma new_state_detect_crossings_other:
  "s \<noteq> symbol \<Longrightarrow>
   new_state (detect_crossings w symbol interval current_rsi previous_rsi t price rt oversold overbought state) s
     = state s"
  by (cases rule: detect_crossings_cases
        [of w symbol interval current_rsi previous_rsi t price rt oversold overbought state])
     simp_all

lemma new_state_detect_crossings_defined:
  "new_state (detect_crossings w symbol interval current_rsi previous_rsi t price rt oversold overbought state) symbol
     \<noteq> None"
  by (cases rule: detect_crossings_cases
        [of w symbol interval current_rsi previous_rsi t price rt oversold overbought state])
     (simp_all add: setdefault_self set_field_setdefault_self)

lemma new_state_detect_crossings_field:
  "k \<noteq> ''last_oversold'' \<Longrightarrow> k \<noteq> ''last_overbought'' \<Longrightarrow>
   get_field (new_state (detect_crossings w symbol interval current_rsi previous_rsi t price rt oversold overbought state))
     symbol k = get_field state symbol k"
  by (cases rule: detect_crossings_cases
        [of w symbol interval current_rsi previous_rsi t price rt oversold overbought state])
     (simp_all add: dedup_key_def split: direction.splits)

lemma alerts_detect_crossings:
  "length (alerts (detect_crossings w symbol interval current_rsi previous_rsi t price rt oversold overbought state)) \<le> 1"
  by (cases rule: detect_crossings_cases
        [of w symbol interval current_rsi previous_rsi t price rt oversold overbought state])
     simp_all

section \<open>The outcomes of \<^verbatim>\<open>check_symbol\<close>\<close>

text \<open>The ways a call of \<^verbatim>\<open>check_symbol\<close> ends.\<close>

lemma check_symbol_cases:
  obtains (raise) e where "check_symbol w symbol interval period oversold overbought state = raise e state"
  | (skip) "\<And>s. check_symbol w symbol interval period oversold overbought s =
              \<lparr>raised = None, new_state = s, alerts = []\<rparr>"
  | (type_error) "check_symbol w symbol interval period oversold overbought state =
              raise TypeError (setdefault state symbol)"
  | (detect) klines closes close_times current_rsi previous_rsi readable_time where
      "reaches_detector w symbol interval period klines closes close_times current_rsi
         previous_rsi readable_time"
proof (cases "fetch_klines w symbol interval")
  case (Inl e)
  then show thesis using raise [of e] by (simp add: check_symbol_def)
next
  case fetch: (Inr klines)
  show thesis
  proof (cases "extract_closed_closes (now_ms w) klines")
    case (Inl e)
    then show thesis using raise [of e] fetch by (simp add: check_symbol_def)
  next
    case ex: (Inr p)
    obtain closes close_times where p: "p = (closes, close_times)" by (cases p)
    note extr = ex [unfolded p]
    show thesis
    proof (cases "length closes < period + 2")
      case True
      then show thesis using skip fetch extr by (simp add: check_symbol_def)
    next
      case long: False
      show thesis
      proof (cases "compute_rsi closes period")
        case (Inl e)
        then show thesis using raise [of e] fetch extr long by (simp add: check_symbol_def)
      next
        case cur: (Inr cur_opt)
        show thesis
        proof (cases "compute_rsi (butlast closes) period")
          case (Inl e)
          then show thesis
            using raise [of e] fetch extr long cur by (simp add: check_symbol_def)
        next
          case prev: (Inr prev_opt)
          show thesis
          proof (cases "format_time w (last close_times)")
            case (Inl e)
            then show thesis
              using raise [of e] fetch extr long cur prev by (simp add: check_symbol_def)
          next
            case time: (Inr readable_time)
            show thesis
            proof (cases "\<exists>c p. cur_opt = Some c \<and> prev_opt = Some p")
              case True
              then obtain c p where "cur_opt = Some c" "prev_opt = Some p" by blast
              then have "reaches_detector w symbol interval period klines closes close_times c p
                  readable_time"
                using fetch extr long cur prev time by (simp add: reaches_detector_def)
              then show thesis by (rule detect)
            next
              case False
              then have "check_symbol w symbol interval period oversold overbought state =
                  raise TypeError (setdefault state symbol)"
                using fetch extr long cur prev time
                by (auto simp: check_symbol_def split: option.splits)
              then show thesis by (rule type_error)
            qed
          qed
        qed
      qed
    qed
  qed
qed

lemma check_symbol_rsi_defined:
  assumes "period + 2 \<le> length closes"
  shows "compute_rsi closes period \<noteq> Inr None" and "compute_rsi (butlast closes) period \<noteq> Inr None"
proof -
  have "compute_rsi xs period \<noteq> Inr None" if "period + 1 \<le> length xs" for xs
  proof (cases "period = 0")
    case True
    with that show ?thesis by (simp add: compute_rsi_period_0)
  next
    case False
    with that show ?thesis by (simp add: compute_rsi_value)
  qed
  from this [of closes] this [of "butlast closes"] assms
  show "compute_rsi closes period \<noteq> Inr None" and "compute_rsi (butlast closes) period \<noteq> Inr None"
    by simp_all
qed

lemma new_state_check_symbol_other:
  "s \<noteq> symbol \<Longrightarrow> new_state (check_symbol w symbol interval period oversold overbought state) s = state s"
  by (cases rule: check_symbol_cases [of w symbol interval period oversold overbought state])
     (simp_all add: raise_def check_symbol_reaches new_state_detect_crossings_other)

lemma new_state_check_symbol_field:
  "k \<noteq> ''last_oversold'' \<Longrightarrow> k \<noteq> ''last_overbought'' \<Longrightarrow>
   get_field (new_state (check_symbol w symbol interval period oversold overbought state)) symbol k
     = get_field state symbol k"
  by (cases rule: check_symbol_cases [of w symbol interval period oversold overbought state])
     (simp_all add: raise_def check_symbol_reaches new_state_detect_crossings_field)

lemma new_state_check_symbol_kept:
  "state symbol \<noteq> None \<Longrightarrow>
   new_state (check_symbol w symbol interval period oversold overbought state) symbol \<noteq> None"
  by (cases rule: check_symbol_cases [of w symbol interval period oversold overbought state])
     (simp_all add: raise_def check_symbol_reaches new_state_detect_crossings_defined)

lemma alerts_check_symbol:
  "length (alerts (check_symbol w symbol interval period oversold overbought state)) \<le> 1"
  by (cases rule: check_symbol_cases [of w symbol interval period oversold overbought state])
     (simp_all add: raise_def check_symbol_reaches alerts_detect_crossings del: One_nat_def)

lemma check_symbol_twice:
  assumes "raised (check_symbol w symbol interval period oversold overbought state) = None"
  shows "check_symbol w symbol interval period oversold overbought
           (new_state (check_symbol w symbol interval period oversold overbought state))
         = \<lparr>raised = None,
            new_state = new_state (check_symbol w symbol interval period oversold overbought state),
            alerts = []\<rparr>"
proof (cases rule: check_symbol_cases [of w symbol interval period oversold overbought state])
  case (raise e)
  with assms show ?thesis by (simp add: raise_def)
next
  case skip
  then show ?thesis by simp
next
  case type_error
  with assms show ?thesis by (simp add: raise_def)
next
  case (detect klines closes close_times current_rsi previous_rsi readable_time)
  note eq = check_symbol_reaches [OF detect]
  show ?thesis
    using assms unfolding eq by (rule detect_crossings_twice)
qed

text \<open>
  When \<^verbatim>\<open>send_alert\<close> raises for the alert of a crossing, \<^verbatim>\<open>check_symbol\<close> raises the same
  exception and the dedup field is not written: the state only has the entry made by
  \<^verbatim>\<open>setdefault\<close>, so the next evaluation of the same candle sends the alert again.
\<close>

lemma check_symbol_send_fails:
  assumes reach: "reaches_detector w symbol interval period klines closes close_times current_rsi
      previous_rsi readable_time"
    and cross: "crossing d previous_rsi current_rsi oversold overbought"
    and fresh: "get_field state symbol (dedup_key d) \<noteq> Some (last close_times)"
    and fails: "send_alert w (message symbol interval current_rsi d (last closes) readable_time) = Some e"
  shows "check_symbol w symbol interval period oversold overbought state =
     \<lparr>raised = Some e, new_state = setdefault state symbol,
      alerts = [message symbol interval current_rsi d (last closes) readable_time]\<rparr>"
proof (cases d)
  case OVERSOLD
  with cross fresh have "fgt previous_rsi oversold \<and> fle current_rsi oversold"
    and "get_field state symbol ''last_oversold'' \<noteq> Some (last close_times)"
    by (simp_all add: crossing_def dedup_key_def)
  from detect_crossings_oversold [OF this] fails OVERSOLD show ?thesis
    unfolding check_symbol_reaches [OF reach] by (simp add: Let_def)
next
  case OVERBOUGHT
  with cross fresh have c: "flt previous_rsi overbought \<and> fge current_rsi overbought"
    and f: "get_field state symbol ''last_overbought'' \<noteq> Some (last close_times)"
    by (simp_all add: crossing_def dedup_key_def)
  from c crossings_exclusive [of previous_rsi oversold current_rsi overbought]
  have n: "\<not> (fgt previous_rsi oversold \<and> fle current_rsi oversold \<and>
      get_field state symbol ''last_oversold'' \<noteq> Some (last close_times))"
    by blast
  from detect_crossings_overbought [OF n c f] fails OVERBOUGHT show ?thesis
    unfolding check_symbol_reaches [OF reach] by (simp add: Let_def)
qed

text \<open>
  When a crossing fires, the exception of the call is the exception of \<^verbatim>\<open>send_alert\<close>, if
  any: the other block sends nothing.
\<close>

lemma check_symbol_raised_send:
  assumes reach: "reaches_detector w symbol interval period klines closes close_times current_rsi
      previous_rsi readable_time"
    and cross: "crossing d previous_rsi current_rsi oversold overbought"
    and fresh: "get_field state symbol (dedup_key d) \<noteq> Some (last close_times)"
  shows "raised (check_symbol w symbol interval period oversold overbought state) =
     send_alert w (message symbol interval current_rsi d (last closes) readable_time)"
proof (cases d)
  case OVERSOLD
  with cross fresh have "fgt previous_rsi oversold \<and> fle current_rsi oversold"
    and "get_field state symbol ''last_oversold'' \<noteq> Some (last close_times)"
    by (simp_all add: crossing_def dedup_key_def)
  from detect_crossings_oversold [OF this] OVERSOLD show ?thesis
    unfolding check_symbol_reaches [OF reach] by (simp add: Let_def split: option.splits)
next
  case OVERBOUGHT
  with cross fresh have c: "flt previous_rsi overbought \<and> fge current_rsi overbought"
    and f: "get_field state symbol ''last_overbought'' \<noteq> Some (last close_times)"
    by (simp_all add: crossing_def dedup_key_def)
  from c crossings_exclusive [of previous_rsi oversold current_rsi overbought]
  have n: "\<not> (fgt previous_rsi oversold \<and> fle current_rsi oversold \<and>
      get_field state symbol ''last_oversold'' \<noteq> Some (last close_times))"
    by blast
  from detect_crossings_overbought [OF n c f] OVERBOUGHT show ?thesis
    unfolding check_symbol_reaches [OF reach] by (simp add: Let_def split: option.splits)
qed

text \<open>
  When a crossing fires and the call raises, the dedup field is as it was, and a second
  call in the same world on the state left behind hands the alert to \<^verbatim>\<open>send_alert\<close> again.
\<close>

lemma check_symbol_unsent:
  assumes reach: "reaches_detector w symbol interval period klines closes close_times current_rsi
      previous_rsi readable_time"
    and cross: "crossing d previous_rsi current_rsi oversold overbought"
    and fresh: "get_field state symbol (dedup_key d) \<noteq> Some (last close_times)"
    and failed: "raised (check_symbol w symbol interval period oversold overbought state) \<noteq> None"
  shows "get_field (new_state (check_symbol w symbol interval period oversold overbought state))
           symbol (dedup_key d) = get_field state symbol (dedup_key d)"
    and "fires d (check_symbol w symbol interval period oversold overbought
           (new_state (check_symbol w symbol interval period oversold overbought state)))"
proof -
  from failed check_symbol_raised_send [OF reach cross fresh] obtain e where
    "send_alert w (message symbol interval current_rsi d (last closes) readable_time) = Some e"
    by auto
  from check_symbol_send_fails [OF reach cross fresh this]
  have st: "new_state (check_symbol w symbol interval period oversold overbought state) =
      setdefault state symbol"
    by simp
  show "get_field (new_state (check_symbol w symbol interval period oversold overbought state))
           symbol (dedup_key d) = get_field state symbol (dedup_key d)"
    unfolding st by simp
  have "fires d (check_symbol w symbol interval period oversold overbought (setdefault state symbol))"
    unfolding check_symbol_reaches [OF reach] using cross fresh by (simp add: fires_iff)
  then show "fires d (check_symbol w symbol interval period oversold overbought
           (new_state (check_symbol w symbol interval period oversold overbought state)))"
    by (simp only: st)
qed

section \<open>The examples, evaluated\<close>

lemmas world_eval =
  quiet_world_def failing_world_def timeout_world_def falling_klines_def low_klines_def rising_klines_def
  candle_def reaches_detector_def check_symbol_def detect_crossings_def alert_block_def
  message_def get_field_def set_field_def setdefault_def raise_def fires_def Let_def

lemma quiet_falling_reaches:
  "reaches_detector (quiet_world falling_klines) ''BTCUSDT'' ''15m'' 2 falling_klines
     [Fin 100, Fin 107, Fin 94, Fin (183 / 2)] [1, 2, 3, 4] (Fin 28) (Fin 35) ''1970-01-01 00:00 UTC''"
  by (simp add: world_eval float_eval)

lemma quiet_low_reaches:
  "reaches_detector (quiet_world low_klines) ''BTCUSDT'' ''15m'' 2 low_klines
     [Fin 1000, Fin 1300, Fin 400, Fin 425] [1, 2, 3, 4] (Fin 28) (Fin 25) ''1970-01-01 00:00 UTC''"
  by (simp add: world_eval float_eval)

lemma quiet_rising_reaches:
  "reaches_detector (quiet_world rising_klines) ''BTCUSDT'' ''15m'' 2 rising_klines
     [Fin 0, Fin 2001, Fin 1102, Fin 1202] [1, 2, 3, 4] (Fin 71) (Fin 69) ''1970-01-01 00:00 UTC''"
  by (simp add: world_eval float_eval)

lemma quiet_low_check:
  "check_symbol (quiet_world low_klines) ''BTCUSDT'' ''15m'' 2 (Fin 30) (Fin 70) Map.empty =
    \<lparr>raised = None, new_state = [''BTCUSDT'' \<mapsto> Map.empty], alerts = []\<rparr>"
  by (simp add: world_eval float_eval)

lemma quiet_falling_check:
  "check_symbol (quiet_world falling_klines) ''BTCUSDT'' ''15m'' 2 (Fin 30) (Fin 70) Map.empty =
    \<lparr>raised = None, new_state = [''BTCUSDT'' \<mapsto> [''last_oversold'' \<mapsto> 4]],
     alerts = [message ''BTCUSDT'' ''15m'' (Fin 28) OVERSOLD (Fin (183 / 2)) ''1970-01-01 00:00 UTC'']\<rparr>"
  by (simp add: world_eval float_eval)

lemma quiet_falling_check_again:
  "check_symbol (quiet_world falling_klines) ''BTCUSDT'' ''15m'' 2 (Fin 30) (Fin 70)
     [''BTCUSDT'' \<mapsto> [''last_oversold'' \<mapsto> 4]] =
    \<lparr>raised = None, new_state = [''BTCUSDT'' \<mapsto> [''last_oversold'' \<mapsto> 4]], alerts = []\<rparr>"
  by (simp add: world_eval float_eval)

lemma quiet_rising_check:
  "check_symbol (quiet_world rising_klines) ''BTCUSDT'' ''15m'' 2 (Fin 30) (Fin 70)
     [''BTCUSDT'' \<mapsto> [''last_oversold'' \<mapsto> 2], ''ETHUSDT'' \<mapsto> [''last_overbought'' \<mapsto> 3]] =
    \<lparr>raised = None,
     new_state = [''BTCUSDT'' \<mapsto> [''last_oversold'' \<mapsto> 2, ''last_overbought'' \<mapsto> 4],
                  ''ETHUSDT'' \<mapsto> [''last_overbought'' \<mapsto> 3]],
     alerts = [message ''BTCUSDT'' ''15m'' (Fin 71) OVERBOUGHT (Fin 1202) ''1970-01-01 00:00 UTC'']\<rparr>"
  by (simp add: world_eval float_eval fun_upd_twist)

lemma timeout_falling_reaches:
  "reaches_detector (timeout_world falling_klines) ''BTCUSDT'' ''15m'' 2 falling_klines
     [Fin 100, Fin 107, Fin 94, Fin (183 / 2)] [1, 2, 3, 4] (Fin 28) (Fin 35) ''1970-01-01 00:00 UTC''"
  by (simp add: world_eval float_eval)

lemma timeout_falling_check:
  "check_symbol (timeout_world falling_klines) ''BTCUSDT'' ''15m'' 2 (Fin 30) (Fin 70) Map.empty =
    \<lparr>raised = Some (External ''ConnectTimeout''), new_state = [''BTCUSDT'' \<mapsto> Map.empty],
     alerts = [message ''BTCUSDT'' ''15m'' (Fin 28) OVERSOLD (Fin (183 / 2)) ''1970-01-01 00:00 UTC'']\<rparr>"
  by (simp add: world_eval float_eval)

lemma timeout_falling_check_again:
  "check_symbol (timeout_world falling_klines) ''BTCUSDT'' ''15m'' 2 (Fin 30) (Fin 70)
     [''BTCUSDT'' \<mapsto> Map.empty] =
    \<lparr>raised = Some (External ''ConnectTimeout''), new_state = [''BTCUSDT'' \<mapsto> Map.empty],
     alerts = [message ''BTCUSDT'' ''15m'' (Fin 28) OVERSOLD (Fin (183 / 2)) ''1970-01-01 00:00 UTC'']\<rparr>"
  by (simp add: world_eval float_eval)

lemma falling_check:
  "check_symbol failing_world ''BTCUSDT'' ''15m'' 2 (Fin 30) (Fin 70) Map.empty =
    \<lparr>raised = None, new_state = [''BTCUSDT'' \<mapsto> [''last_oversold'' \<mapsto> 4]],
     alerts = [message ''BTCUSDT'' ''15m'' (Fin 28) OVERSOLD (Fin (183 / 2)) ''1970-01-01 00:00 UTC'']\<rparr>"
  by (simp add: world_eval float_eval)

lemma failing_check:
  "check_symbol failing_world ''ETHUSDT'' ''15m'' 2 (Fin 30) (Fin 70) state =
    \<lparr>raised = Some (External ''ReadTimeout''), new_state = state, alerts = []\<rparr>"
  by (simp add: failing_world_def check_symbol_def raise_def)

section \<open>The oversold crossing\<close>

text \<open>
  Claim C2, as amended. When \<^verbatim>\<open>check_symbol\<close> reaches the crossing detector with the RSI
  values \<open>previous_rsi\<close> and \<open>current_rsi\<close>, it hands an OVERSOLD alert to \<^verbatim>\<open>send_alert\<close>
  exactly when \<open>previous_rsi > oversold\<close>, \<open>current_rsi <= oversold\<close> and the stored
  \<^verbatim>\<open>last_oversold\<close> differs from the close time of the last candle. When it does and
  \<^verbatim>\<open>send_alert\<close> returns, \<^verbatim>\<open>last_oversold\<close> is that close time; when it does and
  \<^verbatim>\<open>send_alert\<close> raises, \<^verbatim>\<open>check_symbol\<close> raises and \<^verbatim>\<open>last_oversold\<close> is as it was. With
  \<open>oversold = 30\<close> the values 35 and 28 fire (the stored time differing) and the values 25
  and 28 do not.
\<close>

theorem oversold_alert_fires_iff:
  assumes reach: "reaches_detector w symbol interval period klines closes close_times current_rsi
    previous_rsi readable_time"
  shows "let r = check_symbol w symbol interval period oversold overbought state in
     (fires OVERSOLD r \<longleftrightarrow>
        fgt previous_rsi oversold \<and> fle current_rsi oversold \<and>
        get_field state symbol ''last_oversold'' \<noteq> Some (last close_times)) \<and>
     (fires OVERSOLD r \<longrightarrow>
        raised r = send_alert w (message symbol interval current_rsi OVERSOLD (last closes)
                                  readable_time)) \<and>
     (fires OVERSOLD r \<and> raised r = None \<longrightarrow>
        get_field (new_state r) symbol ''last_oversold'' = Some (last close_times)) \<and>
     (fires OVERSOLD r \<and> raised r \<noteq> None \<longrightarrow>
        get_field (new_state r) symbol ''last_oversold'' = get_field state symbol ''last_oversold'') \<and>
     (oversold = Fin 30 \<and> previous_rsi = Fin 35 \<and> current_rsi = Fin 28 \<and>
      get_field state symbol ''last_oversold'' \<noteq> Some (last close_times) \<longrightarrow> fires OVERSOLD r) \<and>
     (oversold = Fin 30 \<and> previous_rsi = Fin 25 \<and> current_rsi = Fin 28 \<longrightarrow> \<not> fires OVERSOLD r)"
proof -
  let ?r = "check_symbol w symbol interval period oversold overbought state"
  have iff: "fires OVERSOLD ?r \<longleftrightarrow>
      fgt previous_rsi oversold \<and> fle current_rsi oversold \<and>
      get_field state symbol ''last_oversold'' \<noteq> Some (last close_times)"
    unfolding check_symbol_reaches [OF reach] by (rule fires_oversold_iff)
  have cf: "crossing OVERSOLD previous_rsi current_rsi oversold overbought"
    "get_field state symbol (dedup_key OVERSOLD) \<noteq> Some (last close_times)"
    if "fires OVERSOLD ?r"
    using that iff by (simp_all add: crossing_def dedup_key_def)
  have sent: "raised ?r = send_alert w (message symbol interval current_rsi OVERSOLD (last closes)
      readable_time)" if "fires OVERSOLD ?r"
    using check_symbol_raised_send [OF reach cf [OF that]] .
  have written: "get_field (new_state ?r) symbol ''last_oversold'' = Some (last close_times)"
    if "fires OVERSOLD ?r" "raised ?r = None"
    using that unfolding check_symbol_reaches [OF reach]
    by (rule detect_crossings_oversold_state)
  have unwritten: "get_field (new_state ?r) symbol ''last_oversold'' =
      get_field state symbol ''last_oversold''"
    if "fires OVERSOLD ?r" "raised ?r \<noteq> None"
    using check_symbol_unsent(1) [OF reach cf [OF that(1)] that(2)] by (simp add: dedup_key_def)
  have yes: "fires OVERSOLD ?r"
    if "oversold = Fin 30 \<and> previous_rsi = Fin 35 \<and> current_rsi = Fin 28 \<and>
        get_field state symbol ''last_oversold'' \<noteq> Some (last close_times)"
    using that iff by (simp add: fgt_def)
  have no: "\<not> fires OVERSOLD ?r"
    if "oversold = Fin 30 \<and> previous_rsi = Fin 25 \<and> current_rsi = Fin 28"
    using that iff by (simp add: fgt_def)
  show ?thesis
    unfolding Let_def
  proof (intro conjI impI)
    show "fires OVERSOLD ?r \<longleftrightarrow>
      fgt previous_rsi oversold \<and> fle current_rsi oversold \<and>
      get_field state symbol ''last_oversold'' \<noteq> Some (last close_times)"
      by (rule iff)
  qed (use sent written unwritten yes no in blast)+
qed

theorem oversold_alert_fires_iff_witness:
  "reaches_detector (quiet_world falling_klines) ''BTCUSDT'' ''15m'' 2 falling_klines
     [Fin 100, Fin 107, Fin 94, Fin (183 / 2)] [1, 2, 3, 4] (Fin 28) (Fin 35) ''1970-01-01 00:00 UTC'' \<and>
   fires OVERSOLD (check_symbol (quiet_world falling_klines) ''BTCUSDT'' ''15m'' 2 (Fin 30) (Fin 70) Map.empty) \<and>
   raised (check_symbol (quiet_world falling_klines) ''BTCUSDT'' ''15m'' 2 (Fin 30) (Fin 70) Map.empty) = None \<and>
   get_field (new_state (check_symbol (quiet_world falling_klines) ''BTCUSDT'' ''15m'' 2 (Fin 30) (Fin 70) Map.empty))
     ''BTCUSDT'' ''last_oversold'' = Some 4 \<and>
   reaches_detector (quiet_world low_klines) ''BTCUSDT'' ''15m'' 2 low_klines
     [Fin 1000, Fin 1300, Fin 400, Fin 425] [1, 2, 3, 4] (Fin 28) (Fin 25) ''1970-01-01 00:00 UTC'' \<and>
   \<not> fires OVERSOLD (check_symbol (quiet_world low_klines) ''BTCUSDT'' ''15m'' 2 (Fin 30) (Fin 70) Map.empty)"
  using oversold_alert_fires_iff [of "quiet_world falling_klines" "''BTCUSDT''" "''15m''" 2 falling_klines
      "[Fin 100, Fin 107, Fin 94, Fin (183 / 2)]" "[1, 2, 3, 4]" "Fin 28" "Fin 35"
      "''1970-01-01 00:00 UTC''" "Fin 30" "Fin 70" Map.empty]
    quiet_falling_reaches quiet_low_reaches
  by (simp add: quiet_falling_check quiet_low_check fires_def message_def get_field_def)

text \<open>
  The claim as the specification states it, that the field is set whenever the alert
  fires, fails: in \<open>timeout_world\<close> the crossing from 35 to 28 hands the alert to
  \<^verbatim>\<open>send_alert\<close>, which raises before line 182 is reached, and \<^verbatim>\<open>last_oversold\<close> stays
  absent.
\<close>

theorem oversold_field_counterexample:
  "fires OVERSOLD
     (check_symbol (timeout_world falling_klines) ''BTCUSDT'' ''15m'' 2 (Fin 30) (Fin 70) Map.empty) \<and>
   raised (check_symbol (timeout_world falling_klines) ''BTCUSDT'' ''15m'' 2 (Fin 30) (Fin 70) Map.empty)
     = Some (External ''ConnectTimeout'') \<and>
   get_field
     (new_state (check_symbol (timeout_world falling_klines) ''BTCUSDT'' ''15m'' 2 (Fin 30) (Fin 70)
        Map.empty))
     ''BTCUSDT'' ''last_oversold'' = None \<and>
   last [1, 2, 3, 4] = (4::int)"
  by (simp add: timeout_falling_check fires_def message_def get_field_def)

section \<open>Never both alerts\<close>

lemma fires_both_two_alerts:
  "fires OVERSOLD r \<Longrightarrow> fires OVERBOUGHT r \<Longrightarrow> 2 \<le> length (alerts r)"
proof -
  assume "fires OVERSOLD r" "fires OVERBOUGHT r"
  then obtain a b where ab: "a \<in> set (alerts r)" "alert_direction a = OVERSOLD"
      "b \<in> set (alerts r)" "alert_direction b = OVERBOUGHT"
    by (auto simp: fires_def)
  then have "a \<noteq> b" by auto
  note ab(1) ab(3) this
  then have "card {a, b} \<le> card (set (alerts r))"
    by (intro card_mono) simp_all
  also have "\<dots> \<le> length (alerts r)" by (rule card_length)
  finally show ?thesis using \<open>a \<noteq> b\<close> by simp
qed

text \<open>
  Claim C4, as amended. One evaluation hands at most one alert to \<^verbatim>\<open>send_alert\<close>, never
  an OVERSOLD and an OVERBOUGHT one together, whatever the thresholds, the RSI values and
  the dedup state: the two \<^verbatim>\<open>if\<close> statements are separate, but the conditions
  \<open>previous > oversold >= current\<close> and \<open>previous < overbought <= current\<close> exclude each other.
\<close>

theorem at_most_one_alert:
  "\<not> (fires OVERSOLD (detect_crossings w symbol interval current_rsi previous_rsi t price rt
                         oversold overbought state) \<and>
      fires OVERBOUGHT (detect_crossings w symbol interval current_rsi previous_rsi t price rt
                          oversold overbought state)) \<and>
   length (alerts (detect_crossings w symbol interval current_rsi previous_rsi t price rt
                     oversold overbought state)) \<le> 1 \<and>
   \<not> (fires OVERSOLD (check_symbol w symbol interval period oversold overbought state) \<and>
      fires OVERBOUGHT (check_symbol w symbol interval period oversold overbought state)) \<and>
   length (alerts (check_symbol w symbol interval period oversold overbought state)) \<le> 1"
  using alerts_detect_crossings [of w symbol interval current_rsi previous_rsi t price rt
      oversold overbought state]
    alerts_check_symbol [of w symbol interval period oversold overbought state]
    fires_both_two_alerts [of "detect_crossings w symbol interval current_rsi previous_rsi t price rt
      oversold overbought state"]
    fires_both_two_alerts [of "check_symbol w symbol interval period oversold overbought state"]
  by auto

theorem at_most_one_alert_witness:
  "fires OVERSOLD (check_symbol (quiet_world falling_klines) ''BTCUSDT'' ''15m'' 2 (Fin 30) (Fin 70) Map.empty) \<and>
   \<not> fires OVERBOUGHT (check_symbol (quiet_world falling_klines) ''BTCUSDT'' ''15m'' 2 (Fin 30) (Fin 70) Map.empty) \<and>
   length (alerts (check_symbol (quiet_world falling_klines) ''BTCUSDT'' ''15m'' 2 (Fin 30) (Fin 70) Map.empty)) = 1"
  using at_most_one_alert [of "quiet_world falling_klines" "''BTCUSDT''" "''15m''" "Fin 28" "Fin 35" 4 "Fin (183 / 2)"
      "''1970-01-01 00:00 UTC''" "Fin 30" "Fin 70" Map.empty 2]
  by (simp add: quiet_falling_check fires_def message_def)

text \<open>
  The claim as the specification states it, that some thresholds, RSI values and dedup
  state make one evaluation emit both alerts, fails: there are none.
\<close>

theorem both_alerts_counterexample:
  "\<not> (\<exists>w symbol interval current_rsi previous_rsi t price rt oversold overbought state.
        fires OVERSOLD (detect_crossings w symbol interval current_rsi previous_rsi t price rt
                          oversold overbought state) \<and>
        fires OVERBOUGHT (detect_crossings w symbol interval current_rsi previous_rsi t price rt
                            oversold overbought state))"
  by (auto simp: fires_oversold_iff fires_overbought_iff)

section \<open>Alerting is idempotent when the alert is sent\<close>

text \<open>
  Claim C5, as amended. When \<^verbatim>\<open>check_symbol\<close> reaches the crossing detector and a crossing
  fires (its condition holds and its dedup field differs from the last close time), the
  alert is handed to \<^verbatim>\<open>send_alert\<close>. When \<^verbatim>\<open>send_alert\<close> returns, the dedup field is the
  last close time, and a second call with the same inputs on the new state sends no
  alert, leaves the state as it is and returns. When \<^verbatim>\<open>send_alert\<close> raises, the call
  raises, the dedup field is as it was, and a second call with the same inputs on the
  state left behind hands the alert to \<^verbatim>\<open>send_alert\<close> again.
\<close>

theorem alert_idempotent:
  assumes reach: "reaches_detector w symbol interval period klines closes close_times current_rsi
      previous_rsi readable_time"
    and cross: "crossing d previous_rsi current_rsi oversold overbought"
    and fresh: "get_field state symbol (dedup_key d) \<noteq> Some (last close_times)"
  shows "let r1 = check_symbol w symbol interval period oversold overbought state;
             r2 = check_symbol w symbol interval period oversold overbought (new_state r1)
         in fires d r1 \<and>
            raised r1 = send_alert w (message symbol interval current_rsi d (last closes)
                                       readable_time) \<and>
            (raised r1 = None \<longrightarrow>
               get_field (new_state r1) symbol (dedup_key d) = Some (last close_times) \<and>
               alerts r2 = [] \<and> new_state r2 = new_state r1 \<and> raised r2 = None) \<and>
            (raised r1 \<noteq> None \<longrightarrow>
               get_field (new_state r1) symbol (dedup_key d) = get_field state symbol (dedup_key d) \<and>
               fires d r2)"
proof -
  let ?r1 = "check_symbol w symbol interval period oversold overbought state"
  have f: "fires d ?r1"
    using cross fresh unfolding check_symbol_reaches [OF reach] by (simp add: fires_iff)
  have "get_field (new_state ?r1) symbol (dedup_key d) = Some (last close_times)"
    if "raised ?r1 = None"
    using f that unfolding check_symbol_reaches [OF reach] by (rule detect_crossings_state)
  then show ?thesis
    using f check_symbol_twice [of w symbol interval period oversold overbought state]
      check_symbol_raised_send [OF reach cross fresh]
      check_symbol_unsent [OF reach cross fresh]
    by (simp add: Let_def)
qed

theorem alert_idempotent_witness:
  "reaches_detector (quiet_world falling_klines) ''BTCUSDT'' ''15m'' 2 falling_klines
     [Fin 100, Fin 107, Fin 94, Fin (183 / 2)] [1, 2, 3, 4] (Fin 28) (Fin 35) ''1970-01-01 00:00 UTC'' \<and>
   crossing OVERSOLD (Fin 35) (Fin 28) (Fin 30) (Fin 70) \<and>
   get_field Map.empty ''BTCUSDT'' (dedup_key OVERSOLD) \<noteq> Some (last [1, 2, 3, 4]) \<and>
   fires OVERSOLD (check_symbol (quiet_world falling_klines) ''BTCUSDT'' ''15m'' 2 (Fin 30) (Fin 70) Map.empty) \<and>
   raised (check_symbol (quiet_world falling_klines) ''BTCUSDT'' ''15m'' 2 (Fin 30) (Fin 70) Map.empty) = None \<and>
   new_state (check_symbol (quiet_world falling_klines) ''BTCUSDT'' ''15m'' 2 (Fin 30) (Fin 70) Map.empty)
     = [''BTCUSDT'' \<mapsto> [''last_oversold'' \<mapsto> 4]] \<and>
   check_symbol (quiet_world falling_klines) ''BTCUSDT'' ''15m'' 2 (Fin 30) (Fin 70)
     [''BTCUSDT'' \<mapsto> [''last_oversold'' \<mapsto> 4]] =
     \<lparr>raised = None, new_state = [''BTCUSDT'' \<mapsto> [''last_oversold'' \<mapsto> 4]], alerts = []\<rparr>"
  using alert_idempotent [of "quiet_world falling_klines" "''BTCUSDT''" "''15m''" 2 falling_klines
      "[Fin 100, Fin 107, Fin 94, Fin (183 / 2)]" "[1, 2, 3, 4]" "Fin 28" "Fin 35"
      "''1970-01-01 00:00 UTC''" OVERSOLD "Fin 30" "Fin 70" Map.empty]
    quiet_falling_reaches
  by (simp add: quiet_falling_check quiet_falling_check_again crossing_def dedup_key_def fgt_def
      get_field_def fires_def message_def)

text \<open>
  The claim as the specification states it, that a crossing that fires updates the dedup
  state and is silent the second time, fails: in \<open>timeout_world\<close> the first call hands the
  alert to \<^verbatim>\<open>send_alert\<close>, which raises, no field is written, and the second call on the
  state left behind hands the same alert to \<^verbatim>\<open>send_alert\<close> again.
\<close>

theorem alert_repeats_counterexample:
  "check_symbol (timeout_world falling_klines) ''BTCUSDT'' ''15m'' 2 (Fin 30) (Fin 70) Map.empty =
     \<lparr>raised = Some (External ''ConnectTimeout''), new_state = [''BTCUSDT'' \<mapsto> Map.empty],
      alerts = [message ''BTCUSDT'' ''15m'' (Fin 28) OVERSOLD (Fin (183 / 2)) ''1970-01-01 00:00 UTC'']\<rparr> \<and>
   alerts (check_symbol (timeout_world falling_klines) ''BTCUSDT'' ''15m'' 2 (Fin 30) (Fin 70)
     (new_state (check_symbol (timeout_world falling_klines) ''BTCUSDT'' ''15m'' 2 (Fin 30) (Fin 70)
        Map.empty))) =
     [message ''BTCUSDT'' ''15m'' (Fin 28) OVERSOLD (Fin (183 / 2)) ''1970-01-01 00:00 UTC'']"
  by (simp add: timeout_falling_check timeout_falling_check_again)

section \<open>The overbought crossing leaves the oversold field alone\<close>

text \<open>
  Claim C9. With the thresholds 30 and 70, the RSI values 69 and then 71 and a stored
  \<^verbatim>\<open>last_overbought\<close> that differs from the last close time, \<^verbatim>\<open>check_symbol\<close> hands exactly
  one alert to \<^verbatim>\<open>send_alert\<close>, an OVERBOUGHT one, and \<^verbatim>\<open>last_oversold\<close> is as it was.
\<close>

theorem overbought_frame:
  assumes reach: "reaches_detector w symbol interval period klines closes close_times (Fin 71)
      (Fin 69) readable_time"
    and fresh: "get_field state symbol ''last_overbought'' \<noteq> Some (last close_times)"
  shows "let r = check_symbol w symbol interval period (Fin 30) (Fin 70) state
         in map alert_direction (alerts r) = [OVERBOUGHT] \<and>
            get_field (new_state r) symbol ''last_oversold'' = get_field state symbol ''last_oversold''"
proof -
  have no: "\<not> (fgt (Fin 69) (Fin 30) \<and> fle (Fin 71) (Fin 30) \<and>
      get_field state symbol ''last_oversold'' \<noteq> Some (last close_times))"
    by simp
  have yes: "flt (Fin 69) (Fin 70) \<and> fge (Fin 71) (Fin 70)"
    by (simp add: fge_def)
  show ?thesis
    unfolding check_symbol_reaches [OF reach] detect_crossings_overbought [OF no yes fresh]
    by (simp add: Let_def message_def split: option.splits)
qed

theorem overbought_frame_witness:
  "reaches_detector (quiet_world rising_klines) ''BTCUSDT'' ''15m'' 2 rising_klines
     [Fin 0, Fin 2001, Fin 1102, Fin 1202] [1, 2, 3, 4] (Fin 71) (Fin 69) ''1970-01-01 00:00 UTC'' \<and>
   get_field [''BTCUSDT'' \<mapsto> [''last_oversold'' \<mapsto> 2], ''ETHUSDT'' \<mapsto> [''last_overbought'' \<mapsto> 3]]
     ''BTCUSDT'' ''last_overbought'' \<noteq> Some (last [1, 2, 3, 4]) \<and>
   map alert_direction (alerts (check_symbol (quiet_world rising_klines) ''BTCUSDT'' ''15m'' 2 (Fin 30) (Fin 70)
     [''BTCUSDT'' \<mapsto> [''last_oversold'' \<mapsto> 2], ''ETHUSDT'' \<mapsto> [''last_overbought'' \<mapsto> 3]]))
     = [OVERBOUGHT] \<and>
   get_field (new_state (check_symbol (quiet_world rising_klines) ''BTCUSDT'' ''15m'' 2 (Fin 30) (Fin 70)
     [''BTCUSDT'' \<mapsto> [''last_oversold'' \<mapsto> 2], ''ETHUSDT'' \<mapsto> [''last_overbought'' \<mapsto> 3]]))
     ''BTCUSDT'' ''last_oversold'' = Some 2"
  using overbought_frame [of "quiet_world rising_klines" "''BTCUSDT''" "''15m''" 2 rising_klines
      "[Fin 0, Fin 2001, Fin 1102, Fin 1202]" "[1, 2, 3, 4]" "''1970-01-01 00:00 UTC''"
      "[''BTCUSDT'' \<mapsto> [''last_oversold'' \<mapsto> 2], ''ETHUSDT'' \<mapsto> [''last_overbought'' \<mapsto> 3]]"]
    quiet_rising_reaches
  by (simp add: quiet_rising_check get_field_def message_def)

section \<open>The entries of the other symbols\<close>

text \<open>
  Claim C10. A call of \<^verbatim>\<open>check_symbol\<close>, however it ends, leaves the entry of every other
  symbol as it was; in the entry of its own symbol only \<^verbatim>\<open>last_oversold\<close> and
  \<^verbatim>\<open>last_overbought\<close> can change, and an entry that exists is kept.
\<close>

theorem check_symbol_frame:
  "(s \<noteq> symbol \<longrightarrow>
      new_state (check_symbol w symbol interval period oversold overbought state) s = state s) \<and>
   (k \<noteq> ''last_oversold'' \<and> k \<noteq> ''last_overbought'' \<longrightarrow>
      get_field (new_state (check_symbol w symbol interval period oversold overbought state)) symbol k
        = get_field state symbol k) \<and>
   (state symbol \<noteq> None \<longrightarrow>
      new_state (check_symbol w symbol interval period oversold overbought state) symbol \<noteq> None)"
  using new_state_check_symbol_other [of s symbol w interval period oversold overbought state]
    new_state_check_symbol_field [of k w symbol interval period oversold overbought state]
    new_state_check_symbol_kept [of state symbol w interval period oversold overbought]
  by blast

theorem check_symbol_frame_witness:
  "''ETHUSDT'' \<noteq> ''BTCUSDT'' \<and>
   new_state (check_symbol (quiet_world rising_klines) ''BTCUSDT'' ''15m'' 2 (Fin 30) (Fin 70)
     [''BTCUSDT'' \<mapsto> [''last_oversold'' \<mapsto> 2], ''ETHUSDT'' \<mapsto> [''last_overbought'' \<mapsto> 3]]) ''ETHUSDT''
     = Some [''last_overbought'' \<mapsto> 3] \<and>
   new_state (check_symbol (quiet_world rising_klines) ''BTCUSDT'' ''15m'' 2 (Fin 30) (Fin 70)
     [''BTCUSDT'' \<mapsto> [''last_oversold'' \<mapsto> 2], ''ETHUSDT'' \<mapsto> [''last_overbought'' \<mapsto> 3]]) ''BTCUSDT''
     = Some [''last_oversold'' \<mapsto> 2, ''last_overbought'' \<mapsto> 4]"
  using check_symbol_frame [of "''ETHUSDT''" "''BTCUSDT''" "quiet_world rising_klines" "''15m''" 2 "Fin 30" "Fin 70"
      "[''BTCUSDT'' \<mapsto> [''last_oversold'' \<mapsto> 2], ''ETHUSDT'' \<mapsto> [''last_overbought'' \<mapsto> 3]]"
      "''other''"]
  by (simp add: quiet_rising_check)

section \<open>An exception ends the cycle\<close>

lemma check_symbols_prefix_raise:
  assumes "check_symbols w interval period oversold overbought pre state = (r, called)"
    and "raised r = None"
    and "raised (check_symbol w symbol interval period oversold overbought (new_state r)) = Some e"
  shows "check_symbols w interval period oversold overbought (pre @ symbol # post) state =
     ((check_symbol w symbol interval period oversold overbought (new_state r))
        \<lparr>alerts := alerts r @
           alerts (check_symbol w symbol interval period oversold overbought (new_state r))\<rparr>,
      pre @ [symbol])"
  using assms
proof (induction pre arbitrary: state r called)
  case Nil
  then show ?case by auto
next
  case (Cons p pre)
  let ?r0 = "check_symbol w p interval period oversold overbought state"
  obtain rs ev where rest:
    "check_symbols w interval period oversold overbought pre (new_state ?r0) = (rs, ev)"
    by (cases "check_symbols w interval period oversold overbought pre (new_state ?r0)")
  from Cons.prems(1,2) have ok: "raised ?r0 = None"
    by (auto simp: Let_def split: option.splits prod.splits)
  with Cons.prems(1) rest have r: "r = rs\<lparr>alerts := alerts ?r0 @ alerts rs\<rparr>"
    by (simp add: Let_def)
  then have "raised rs = None" "new_state rs = new_state r"
    using Cons.prems(2) by simp_all
  with Cons.IH [OF rest] Cons.prems(3)
  have "check_symbols w interval period oversold overbought (pre @ symbol # post) (new_state ?r0) =
     ((check_symbol w symbol interval period oversold overbought (new_state r))
        \<lparr>alerts := alerts rs @
           alerts (check_symbol w symbol interval period oversold overbought (new_state r))\<rparr>,
      pre @ [symbol])"
    by simp
  then show ?case using ok r by (simp add: Let_def)
qed

text \<open>
  Claim C3, as amended. When the symbols before \<open>symbol\<close> are processed without an exception
  and \<^verbatim>\<open>check_symbol\<close> raises for \<open>symbol\<close>, the cycle ends there: the exception is logged,
  the symbols after it are not evaluated, and \<^verbatim>\<open>save_state\<close> is not called. The state in
  memory keeps what the calls made so far have written.
\<close>

theorem cycle_stops_at_exception:
  assumes "check_symbols w interval period oversold overbought pre state = (r, called)"
    and "raised r = None"
    and "raised (check_symbol w symbol interval period oversold overbought (new_state r)) = Some e"
  shows "cycle w (pre @ symbol # post) interval period oversold overbought state =
     \<lparr>memory = new_state (check_symbol w symbol interval period oversold overbought (new_state r)),
      saved = None, logged = Some e, evaluated = pre @ [symbol],
      dispatched = alerts r @
        alerts (check_symbol w symbol interval period oversold overbought (new_state r))\<rparr>"
  using assms(3)
  by (simp add: cycle_def check_symbols_prefix_raise [OF assms])

theorem cycle_stops_at_exception_witness:
  "check_symbols failing_world ''15m'' 2 (Fin 30) (Fin 70) [''BTCUSDT''] Map.empty =
     (\<lparr>raised = None, new_state = [''BTCUSDT'' \<mapsto> [''last_oversold'' \<mapsto> 4]],
       alerts = [message ''BTCUSDT'' ''15m'' (Fin 28) OVERSOLD (Fin (183 / 2)) ''1970-01-01 00:00 UTC'']\<rparr>,
      [''BTCUSDT'']) \<and>
   raised (check_symbol failing_world ''ETHUSDT'' ''15m'' 2 (Fin 30) (Fin 70)
      [''BTCUSDT'' \<mapsto> [''last_oversold'' \<mapsto> 4]]) = Some (External ''ReadTimeout'') \<and>
   cycle failing_world ([''BTCUSDT''] @ ''ETHUSDT'' # [''BNBUSDT'']) ''15m'' 2 (Fin 30) (Fin 70) Map.empty =
     \<lparr>memory = [''BTCUSDT'' \<mapsto> [''last_oversold'' \<mapsto> 4]],
      saved = None, logged = Some (External ''ReadTimeout''), evaluated = [''BTCUSDT''] @ [''ETHUSDT''],
      dispatched = [message ''BTCUSDT'' ''15m'' (Fin 28) OVERSOLD (Fin (183 / 2)) ''1970-01-01 00:00 UTC'']\<rparr>"
  using cycle_stops_at_exception [of failing_world "''15m''" 2 "Fin 30" "Fin 70" "[''BTCUSDT'']" Map.empty
      "\<lparr>raised = None, new_state = [''BTCUSDT'' \<mapsto> [''last_oversold'' \<mapsto> 4]],
        alerts = [message ''BTCUSDT'' ''15m'' (Fin 28) OVERSOLD (Fin (183 / 2)) ''1970-01-01 00:00 UTC'']\<rparr>"
      "[''BTCUSDT'']" "''ETHUSDT''" "External ''ReadTimeout''" "[''BNBUSDT'']"]
  by (simp add: falling_check failing_check)

text \<open>
  The claim as the specification states it fails: in \<open>failing_world\<close> the request for the
  second of three symbols times out, the third symbol is not evaluated, and nothing is
  saved, although the first symbol has written its dedup field.
\<close>

theorem cycle_isolation_counterexample:
  "evaluated (cycle failing_world [''BTCUSDT'', ''ETHUSDT'', ''BNBUSDT''] ''15m'' 2 (Fin 30) (Fin 70)
      Map.empty) = [''BTCUSDT'', ''ETHUSDT''] \<and>
   saved (cycle failing_world [''BTCUSDT'', ''ETHUSDT'', ''BNBUSDT''] ''15m'' 2 (Fin 30) (Fin 70)
      Map.empty) = None \<and>
   logged (cycle failing_world [''BTCUSDT'', ''ETHUSDT'', ''BNBUSDT''] ''15m'' 2 (Fin 30) (Fin 70)
      Map.empty) = Some (External ''ReadTimeout'') \<and>
   memory (cycle failing_world [''BTCUSDT'', ''ETHUSDT'', ''BNBUSDT''] ''15m'' 2 (Fin 30) (Fin 70)
      Map.empty) = [''BTCUSDT'' \<mapsto> [''last_oversold'' \<mapsto> 4]]"
  by (simp add: cycle_def falling_check failing_check)

end
